theory Spec2Isabelle
  imports Main
begin

section \<open>Aira Control Tower: call session engine and prompt version store\<close>

text \<open>
  A shallow embedding of \<^verbatim>\<open>backend_deprecated/server.py\<close>.

  Conventions of the embedding:
  \<^item> a Python \<^verbatim>\<open>str\<close> is a \<open>string\<close>; one \<open>char\<close> is one code point below 256
    (all the literals of the source are in that range);
  \<^item> \<^verbatim>\<open>uuid.uuid4()\<close> and \<^verbatim>\<open>datetime.now(timezone.utc)\<close> read the environment: every
    value they return is an argument of the operation that asks for it;
  \<^item> a MongoDB collection is the list of its documents in insertion order;
    \<^verbatim>\<open>find_one\<close> and \<^verbatim>\<open>update_one\<close> act on the first document that matches the filter;
  \<^item> \<^verbatim>\<open>raise HTTPException(status_code, detail)\<close> is the value \<open>Inl (HTTPException ...)\<close>;
    the collection is returned together with the result.
\<close>

subsection \<open>Enumerations\<close>

datatype FSMState = GREETING | LANGUAGE_SELECTION | QUALIFICATION | OBJECTION_HANDLING
  | DEMO_OFFER | CONFIRMATION | CLOSING | TRANSFER | FALLBACK

datatype Language = ENGLISH | SPANISH | FRENCH | GERMAN

datatype CallStatus = CS_ACTIVE | CS_COMPLETED | CS_FAILED | CS_TRANSFERRED

datatype ExitReason = ER_COMPLETED | ER_USER_HANGUP | ER_TIMEOUT | ER_ERROR
  | ER_TRANSFERRED | ER_NO_RESPONSE

datatype PromptStatus = PS_ACTIVE | PS_DRAFT | PS_WEAK | PS_ARCHIVED

datatype error = HTTPException (status_code: nat) (detail: string) | KeyError | AttributeError

type_synonym uuid = string
type_synonym datetime = nat

subsection \<open>Strings\<close>

text \<open>\<^verbatim>\<open>str.lower()\<close> on code points below 256: A-Z and the upper-case letters
  0xC0-0xDE (without the multiplication sign 0xD7) move up by 32, which sets bit 5.\<close>

definition lower_char :: "char \<Rightarrow> char" where
  "lower_char c =
     (let n = (of_char c :: nat) in
      if (65 \<le> n \<and> n \<le> 90) \<or> (192 \<le> n \<and> n \<le> 222 \<and> n \<noteq> 215)
      then (case c of Char b0 b1 b2 b3 b4 b5 b6 b7 \<Rightarrow> Char b0 b1 b2 b3 b4 True b6 b7)
      else c)"

definition lower :: "string \<Rightarrow> string" where
  "lower s = map lower_char s"

fun startswith :: "string \<Rightarrow> string \<Rightarrow> bool" where
  "startswith s [] = True"
| "startswith [] (p # ps) = False"
| "startswith (c # cs) (p # ps) = (c = p \<and> startswith cs ps)"

text \<open>\<open>contains sub s\<close> is Python's \<^verbatim>\<open>sub in s\<close> on strings.\<close>

fun contains :: "string \<Rightarrow> string \<Rightarrow> bool" where
  "contains sub [] = (sub = [])"
| "contains sub (c # cs) = (startswith (c # cs) sub \<or> contains sub cs)"

text \<open>\<^verbatim>\<open>str.isspace\<close> on one code point below 256, and \<^verbatim>\<open>str.strip()\<close>.\<close>

definition isspace :: "char \<Rightarrow> bool" where
  "isspace c =
     (let n = (of_char c :: nat) in
      (9 \<le> n \<and> n \<le> 13) \<or> (28 \<le> n \<and> n \<le> 32) \<or> n = 133 \<or> n = 160)"

definition strip :: "string \<Rightarrow> string" where
  "strip s = rev (dropWhile isspace (rev (dropWhile isspace s)))"

text \<open>\<^verbatim>\<open>str(n)\<close> for a natural number.\<close>

definition digit_char :: "nat \<Rightarrow> char" where
  "digit_char d = ''0123456789'' ! (d mod 10)"

function str_nat :: "nat \<Rightarrow> string" where
  "str_nat n = (if n < 10 then [digit_char n] else str_nat (n div 10) @ [digit_char (n mod 10)])"
  by pat_completeness auto
termination
  by (relation "measure id") auto

declare str_nat.simps [simp del]

subsection \<open>MongoDB collection primitives\<close>

fun update_one :: "('a \<Rightarrow> bool) \<Rightarrow> ('a \<Rightarrow> 'a) \<Rightarrow> 'a list \<Rightarrow> 'a list" where
  "update_one P f [] = []"
| "update_one P f (x # xs) = (if P x then f x # xs else x # update_one P f xs)"

definition update_many :: "('a \<Rightarrow> bool) \<Rightarrow> ('a \<Rightarrow> 'a) \<Rightarrow> 'a list \<Rightarrow> 'a list" where
  "update_many P f xs = map (\<lambda>x. if P x then f x else x) xs"

definition insert_one :: "'a \<Rightarrow> 'a list \<Rightarrow> 'a list" where
  "insert_one x xs = xs @ [x]"

text \<open>A dictionary as the list of its items in insertion order, with unique keys:
  \<^verbatim>\<open>d[k] = v\<close> overwrites the value of a key that is present and appends a new key;
  \<open>map_of\<close> looks a key up.\<close>

fun dict_set :: "'k \<Rightarrow> 'v \<Rightarrow> ('k \<times> 'v) list \<Rightarrow> ('k \<times> 'v) list" where
  "dict_set k v [] = [(k, v)]"
| "dict_set k v ((k', v') # d) = (if k' = k then (k, v) # d else (k', v') # dict_set k v d)"

subsection \<open>Response resolver\<close>

type_synonym entry = "string \<times> FSMState \<times> bool"

definition responses :: "FSMState \<rightharpoonup> (Language \<rightharpoonup> entry)" where
  "responses =
   [GREETING \<mapsto>
      [ENGLISH \<mapsto> (''Hello! I'm Aira, your AI assistant. How can I help you today? Would you like to learn about our product?'', QUALIFICATION, False),
       SPANISH \<mapsto> ([CHR 0xA1] @ ''Hola! Soy Aira, tu asistente de IA. '' @ [CHR 0xBF] @ ''C'' @ [CHR 0xF3] @ ''mo puedo ayudarte hoy?'', QUALIFICATION, False)],
    QUALIFICATION \<mapsto>
      [ENGLISH \<mapsto> (''Great! Let me ask you a few questions. What industry is your company in?'', QUALIFICATION, False),
       SPANISH \<mapsto> ([CHR 0xA1] @ ''Genial! D'' @ [CHR 0xE9] @ ''jame hacerte algunas preguntas. '' @ [CHR 0xBF] @ ''En qu'' @ [CHR 0xE9] @ '' industria est'' @ [CHR 0xE1] @ '' tu empresa?'', QUALIFICATION, False)],
    DEMO_OFFER \<mapsto>
      [ENGLISH \<mapsto> (''Based on what you've told me, I think our solution would be perfect for you. Would you like to schedule a demo?'', CONFIRMATION, False),
       SPANISH \<mapsto> (''Bas'' @ [CHR 0xE1] @ ''ndome en lo que me has contado, creo que nuestra soluci'' @ [CHR 0xF3] @ ''n ser'' @ [CHR 0xED] @ ''a perfecta para ti. '' @ [CHR 0xBF] @ ''Te gustar'' @ [CHR 0xED] @ ''a programar una demostraci'' @ [CHR 0xF3] @ ''n?'', CONFIRMATION, False)],
    CONFIRMATION \<mapsto>
      [ENGLISH \<mapsto> (''Perfect! I've scheduled your demo. You'll receive a confirmation email shortly. Is there anything else I can help you with?'', CLOSING, False),
       SPANISH \<mapsto> ([CHR 0xA1] @ ''Perfecto! He programado tu demostraci'' @ [CHR 0xF3] @ ''n. Recibir'' @ [CHR 0xE1] @ ''s un correo de confirmaci'' @ [CHR 0xF3] @ ''n pronto. '' @ [CHR 0xBF] @ ''Hay algo m'' @ [CHR 0xE1] @ ''s en lo que pueda ayudarte?'', CLOSING, False)],
    CLOSING \<mapsto>
      [ENGLISH \<mapsto> (''Thank you for your time today! Have a great day!'', CLOSING, True),
       SPANISH \<mapsto> ([CHR 0xA1] @ ''Gracias por tu tiempo hoy! '' @ [CHR 0xA1] @ ''Que tengas un excelente d'' @ [CHR 0xED] @ ''a!'', CLOSING, True)],
    OBJECTION_HANDLING \<mapsto>
      [ENGLISH \<mapsto> (''I understand your concern. Let me address that. Our solution offers flexible pricing and a free trial period.'', DEMO_OFFER, False),
       SPANISH \<mapsto> (''Entiendo tu preocupaci'' @ [CHR 0xF3] @ ''n. D'' @ [CHR 0xE9] @ ''jame abordar eso. Nuestra soluci'' @ [CHR 0xF3] @ ''n ofrece precios flexibles y un per'' @ [CHR 0xED] @ ''odo de prueba gratuito.'', DEMO_OFFER, False)]]"

text \<open>\<^verbatim>\<open>d.get(language, d[Language.ENGLISH])\<close>: the default is evaluated first and
  raises \<^verbatim>\<open>KeyError\<close> when the table has no English entry.\<close>

definition get_or_english :: "(Language \<rightharpoonup> entry) \<Rightarrow> Language \<Rightarrow> error + entry" where
  "get_or_english d language =
     (case d ENGLISH of
        None \<Rightarrow> Inl KeyError
      | Some dflt \<Rightarrow> Inr (case d language of Some e \<Rightarrow> e | None \<Rightarrow> dflt))"

text \<open>The \<^verbatim>\<open>if/elif\<close> chain that chooses \<^verbatim>\<open>next_state\<close> (lines 284-294), in the
  order of the source.\<close>

definition choose_next_state :: "FSMState \<Rightarrow> string \<Rightarrow> Language \<Rightarrow> error + FSMState" where
  "choose_next_state state user_lower language =
     (if contains ''demo'' user_lower \<or> contains ''yes'' user_lower
           \<or> contains ''interested'' user_lower
      then Inr (if state = QUALIFICATION then DEMO_OFFER else CONFIRMATION)
      else if contains ''no'' user_lower \<or> contains ''not interested'' user_lower
      then Inr CLOSING
      else if contains ''concern'' user_lower \<or> contains ''expensive'' user_lower
           \<or> contains ''but'' user_lower
      then Inr OBJECTION_HANDLING
      else (case responses state of
              Some d \<Rightarrow>
                (case get_or_english d language of
                   Inl e \<Rightarrow> Inl e
                 | Inr (_, next_state, _) \<Rightarrow> Inr next_state)
            | None \<Rightarrow> Inr state))"

definition get_simulated_response :: "FSMState \<Rightarrow> string \<Rightarrow> Language \<Rightarrow> error + entry" where
  "get_simulated_response state user_input language =
     (let user_lower = lower user_input in
      case choose_next_state state user_lower language of
        Inl e \<Rightarrow> Inl e
      | Inr next_state \<Rightarrow>
          (case responses next_state of
             Some d \<Rightarrow>
               (case get_or_english d language of
                  Inl e \<Rightarrow> Inl e
                | Inr (text, _, is_final) \<Rightarrow> Inr (text, next_state, is_final))
           | None \<Rightarrow> Inr (''I'm here to help. Could you tell me more?'', QUALIFICATION, False)))"

text \<open>The text that the table stores for a state and a language.\<close>

definition template_text :: "FSMState \<Rightarrow> Language \<Rightarrow> string option" where
  "template_text s l = (case responses s of None \<Rightarrow> None | Some d \<Rightarrow> map_option fst (d l))"

subsection \<open>Call session engine\<close>

record CallTurn =
  turn_id :: uuid
  timestamp :: datetime
  speaker :: string
  turn_text :: string
  turn_audio_url :: "string option"
  turn_fsm_state :: FSMState

record Call =
  call_id :: uuid
  session_id :: uuid
  call_status :: CallStatus
  call_fsm_state :: FSMState
  call_language :: Language
  test_mode :: bool
  start_time :: datetime
  end_time :: "datetime option"
  exit_reason :: "ExitReason option"
  turns :: "CallTurn list"
  qualification_data :: "(string \<times> bool) list"
  demo_intent :: bool
  demo_confirmed :: bool
  objections :: "string list"

record WebcallStartRequest =
  start_test_mode :: bool
  start_language :: Language

record WebcallStartResponse =
  started_call_id :: uuid
  started_session_id :: uuid
  initial_message :: string
  started_fsm_state :: FSMState
  started_audio_url :: "string option"

record WebcallInputRequest =
  input_call_id :: uuid
  user_input :: string

record WebcallInputResponse =
  answered_call_id :: uuid
  aira_response :: string
  answered_fsm_state :: FSMState
  answered_audio_url :: "string option"
  is_final :: bool

text \<open>The values that one call of \<^verbatim>\<open>webcall_start\<close> reads from the environment: three
  \<^verbatim>\<open>uuid4()\<close> results (call, session, first turn) and two clock readings.\<close>

record StartEnv =
  new_call_id :: uuid
  new_session_id :: uuid
  new_turn_id :: uuid
  new_turn_now :: datetime
  new_start_now :: datetime

definition webcall_start ::
  "Call list \<Rightarrow> StartEnv \<Rightarrow> WebcallStartRequest \<Rightarrow> (error + WebcallStartResponse) \<times> Call list" where
  "webcall_start db env request =
     (case get_simulated_response GREETING [] (start_language request) of
        Inl e \<Rightarrow> (Inl e, db)
      | Inr (message, _, _) \<Rightarrow>
          (let call = \<lparr>call_id = new_call_id env,
                       session_id = new_session_id env,
                       call_status = CS_ACTIVE,
                       call_fsm_state = GREETING,
                       call_language = start_language request,
                       test_mode = start_test_mode request,
                       start_time = new_start_now env,
                       end_time = None,
                       exit_reason = None,
                       turns = [\<lparr>turn_id = new_turn_id env,
                                 timestamp = new_turn_now env,
                                 speaker = ''aira'',
                                 turn_text = message,
                                 turn_audio_url = None,
                                 turn_fsm_state = GREETING\<rparr>],
                       qualification_data = [],
                       demo_intent = False,
                       demo_confirmed = False,
                       objections = []\<rparr>
           in (Inr \<lparr>started_call_id = new_call_id env,
                     started_session_id = new_session_id env,
                     initial_message = message,
                     started_fsm_state = GREETING,
                     started_audio_url = Some (''/api/audio/'' @ new_call_id env @ ''/0'')\<rparr>,
               insert_one call db)))"

text \<open>The environment of one \<^verbatim>\<open>webcall_input\<close>: the ids and timestamps of the two
  turns, and the clock reading for \<^verbatim>\<open>end_time\<close>.\<close>

record InputEnv =
  user_turn_id :: uuid
  user_turn_now :: datetime
  aira_turn_id :: uuid
  aira_turn_now :: datetime
  final_now :: datetime

text \<open>The dictionary \<^verbatim>\<open>qualification_updates\<close>, as its items in insertion order.\<close>

definition qualification_updates :: "string \<Rightarrow> (string \<times> bool) list" where
  "qualification_updates input =
     (if contains ''company'' (lower input) \<or> contains ''industry'' (lower input)
      then [(''industry_mentioned'', True)] else [])
     @ (if contains ''demo'' (lower input) \<or> contains ''yes'' (lower input)
        then [(''demo_intent'', True)] else [])"

text \<open>The effect of \<^verbatim>\<open>update_data\<close> on the matched document: \<^verbatim>\<open>$push\<close> of both turns and
  \<^verbatim>\<open>$set\<close> of the state, of every qualification key, of \<^verbatim>\<open>demo_intent\<close> and, when
  final, of status, end time and exit reason.\<close>

definition apply_update_data ::
  "CallTurn \<Rightarrow> CallTurn \<Rightarrow> FSMState \<Rightarrow> (string \<times> bool) list \<Rightarrow> bool \<Rightarrow> datetime \<Rightarrow> Call \<Rightarrow> Call" where
  "apply_update_data user_turn aira_turn next_state updates final now c =
     (let c1 = c\<lparr>turns := turns c @ [user_turn, aira_turn], call_fsm_state := next_state\<rparr>;
          c2 = c1\<lparr>qualification_data :=
                     fold (\<lambda>(key, v) d. dict_set key v d) updates (qualification_data c1)\<rparr>;
          c3 = (if updates \<noteq> [] \<and> map_of updates ''demo_intent'' = Some True
                then c2\<lparr>demo_intent := True\<rparr> else c2)
      in if final
         then c3\<lparr>call_status := CS_COMPLETED, end_time := Some now,
                 exit_reason := Some ER_COMPLETED\<rparr>
         else c3)"

definition webcall_input ::
  "Call list \<Rightarrow> InputEnv \<Rightarrow> WebcallInputRequest \<Rightarrow> (error + WebcallInputResponse) \<times> Call list" where
  "webcall_input db env request =
     (case find (\<lambda>c. call_id c = input_call_id request) db of
        None \<Rightarrow> (Inl (HTTPException 404 ''Call not found''), db)
      | Some call_doc \<Rightarrow>
          if call_status call_doc \<noteq> CS_ACTIVE
          then (Inl (HTTPException 400 ''Call is not active''), db)
          else
            (let current_state = call_fsm_state call_doc;
                 language = call_language call_doc;
                 user_turn = \<lparr>turn_id = user_turn_id env,
                              timestamp = user_turn_now env,
                              speaker = ''user'',
                              turn_text = user_input request,
                              turn_audio_url = None,
                              turn_fsm_state = current_state\<rparr>
             in case get_simulated_response current_state (user_input request) language of
                  Inl e \<Rightarrow> (Inl e, db)
                | Inr (response_text, next_state, final) \<Rightarrow>
                    (let aira_turn = \<lparr>turn_id = aira_turn_id env,
                                      timestamp = aira_turn_now env,
                                      speaker = ''aira'',
                                      turn_text = response_text,
                                      turn_audio_url = None,
                                      turn_fsm_state = next_state\<rparr>;
                         db' = update_one (\<lambda>c. call_id c = input_call_id request)
                                 (apply_update_data user_turn aira_turn next_state
                                    (qualification_updates (user_input request)) final
                                    (final_now env)) db;
                         turn_count = length (turns call_doc) + 2
                     in (Inr \<lparr>answered_call_id = input_call_id request,
                               aira_response = response_text,
                               answered_fsm_state = next_state,
                               answered_audio_url =
                                 Some (''/api/audio/'' @ input_call_id request @ ''/''
                                       @ str_nat (turn_count - 1)),
                               is_final = final\<rparr>,
                         db'))))"

text \<open>\<^verbatim>\<open>webcall_end\<close>: one \<^verbatim>\<open>update_one\<close> filtered on the id and on the active status.
  The update changes the status of the document it matches, so \<^verbatim>\<open>modified_count\<close> is 1
  when a document matches and 0 otherwise. The acknowledgement is the pair of the message
  and the call id.\<close>

definition webcall_end ::
  "Call list \<Rightarrow> datetime \<Rightarrow> uuid \<Rightarrow> (error + string \<times> uuid) \<times> Call list" where
  "webcall_end db now request_call_id =
     (let matches = (\<lambda>c. call_id c = request_call_id \<and> call_status c = CS_ACTIVE);
          db' = update_one matches
                  (\<lambda>c. c\<lparr>call_status := CS_COMPLETED, end_time := Some now,
                          exit_reason := Some ER_USER_HANGUP\<rparr>) db;
          modified_count = (if list_ex matches db then 1 else 0 :: nat)
      in if modified_count = 0
         then (Inl (HTTPException 404 ''Active call not found''), db')
         else (Inr (''Call ended'', request_call_id), db'))"

subsection \<open>Prompt version store\<close>

record Prompt =
  prompt_id :: uuid
  prompt_fsm_state :: FSMState
  prompt_language :: Language
  prompt_text :: string
  prompt_status :: PromptStatus
  version :: int
  created_at :: datetime
  updated_at :: datetime
  created_by :: string
  prompt_notes :: "string option"

record PromptCreateRequest =
  new_fsm_state :: FSMState
  new_language :: Language
  new_text :: string
  new_notes :: "string option"

record PromptUpdateRequest =
  update_text :: string
  update_notes :: "string option"

record PromptMarkWeakRequest =
  replacement_text :: string
  weak_notes :: "string option"

text \<open>What the constructor \<^verbatim>\<open>Prompt(...)\<close> reads from the environment through its default
  factories: the id and the two timestamps.\<close>

record PromptEnv =
  new_prompt_id :: uuid
  new_created_at :: datetime
  new_updated_at :: datetime

definition same_lineage :: "FSMState \<Rightarrow> Language \<Rightarrow> Prompt \<Rightarrow> bool" where
  "same_lineage s l p = (prompt_fsm_state p = s \<and> prompt_language p = l)"

text \<open>The version of the first document of \<^verbatim>\<open>find(...).sort("version", -1).limit(1)\<close>:
  the largest version among the documents found, if there is one.\<close>

definition top_version :: "Prompt list \<Rightarrow> int option" where
  "top_version ps =
     (case ps of [] \<Rightarrow> None | p # qs \<Rightarrow> Some (fold (\<lambda>q m. max (version q) m) qs (version p)))"

definition create_prompt ::
  "Prompt list \<Rightarrow> PromptEnv \<Rightarrow> PromptCreateRequest \<Rightarrow> (error + Prompt) \<times> Prompt list" where
  "create_prompt db env request =
     (let existing = top_version
                       (filter (same_lineage (new_fsm_state request) (new_language request)) db);
          v = (case existing of None \<Rightarrow> 1 | Some m \<Rightarrow> m + 1);
          prompt = \<lparr>prompt_id = new_prompt_id env,
                    prompt_fsm_state = new_fsm_state request,
                    prompt_language = new_language request,
                    prompt_text = new_text request,
                    prompt_status = PS_DRAFT,
                    version = v,
                    created_at = new_created_at env,
                    updated_at = new_updated_at env,
                    created_by = ''admin'',
                    prompt_notes = new_notes request\<rparr>
      in (Inr prompt, insert_one prompt db))"

definition update_prompt ::
  "Prompt list \<Rightarrow> datetime \<Rightarrow> uuid \<Rightarrow> PromptUpdateRequest \<Rightarrow> (error + Prompt) \<times> Prompt list" where
  "update_prompt db now pid request =
     (case find (\<lambda>p. prompt_id p = pid) db of
        None \<Rightarrow> (Inl (HTTPException 404 ''Prompt not found''), db)
      | Some prompt \<Rightarrow>
          if prompt_status prompt = PS_ACTIVE
          then (Inl (HTTPException 400
                  ''Cannot edit active prompts. Create a new draft instead.''), db)
          else
            (let set_fields =
                   (\<lambda>p. let p1 = p\<lparr>prompt_text := update_text request, updated_at := now\<rparr>
                        in (case update_notes request of
                              None \<Rightarrow> p1
                            | Some n \<Rightarrow> if n = [] then p1 else p1\<lparr>prompt_notes := Some n\<rparr>));
                 db' = update_one (\<lambda>p. prompt_id p = pid) set_fields db
             in case find (\<lambda>p. prompt_id p = pid) db' of
                  None \<Rightarrow> (Inl AttributeError, db')
                | Some updated \<Rightarrow> (Inr updated, db')))"

definition mark_prompt_weak ::
  "Prompt list \<Rightarrow> datetime \<Rightarrow> PromptEnv \<Rightarrow> uuid \<Rightarrow> PromptMarkWeakRequest
     \<Rightarrow> (error + Prompt) \<times> Prompt list" where
  "mark_prompt_weak db now env pid request =
     (case find (\<lambda>p. prompt_id p = pid) db of
        None \<Rightarrow> (Inl (HTTPException 404 ''Prompt not found''), db)
      | Some prompt \<Rightarrow>
          if strip (replacement_text request) = []
          then (Inl (HTTPException 400
                  ''Replacement text is required when marking a prompt as weak''), db)
          else
            (let db1 = update_one (\<lambda>p. prompt_id p = pid)
                         (\<lambda>p. p\<lparr>prompt_status := PS_WEAK, updated_at := now\<rparr>) db;
                 new_prompt = \<lparr>prompt_id = new_prompt_id env,
                               prompt_fsm_state = prompt_fsm_state prompt,
                               prompt_language = prompt_language prompt,
                               prompt_text = replacement_text request,
                               prompt_status = PS_DRAFT,
                               version = version prompt + 1,
                               created_at = new_created_at env,
                               updated_at = new_updated_at env,
                               created_by = ''admin'',
                               prompt_notes =
                                 Some (case weak_notes request of
                                         None \<Rightarrow> ''Replacement for weak prompt '' @ pid
                                       | Some n \<Rightarrow>
                                           if n = [] then ''Replacement for weak prompt '' @ pid
                                           else n)\<rparr>
             in (Inr new_prompt, insert_one new_prompt db1)))"

text \<open>The two writes of \<^verbatim>\<open>publish_prompt\<close>, each a state that a reader can observe.\<close>

definition archive_active :: "FSMState \<Rightarrow> Language \<Rightarrow> datetime \<Rightarrow> Prompt list \<Rightarrow> Prompt list" where
  "archive_active s l now db =
     update_many (\<lambda>p. prompt_fsm_state p = s \<and> prompt_language p = l \<and> prompt_status p = PS_ACTIVE)
       (\<lambda>p. p\<lparr>prompt_status := PS_ARCHIVED, updated_at := now\<rparr>) db"

definition activate :: "uuid \<Rightarrow> datetime \<Rightarrow> Prompt list \<Rightarrow> Prompt list" where
  "activate pid now db =
     update_one (\<lambda>p. prompt_id p = pid) (\<lambda>p. p\<lparr>prompt_status := PS_ACTIVE, updated_at := now\<rparr>) db"

definition publish_prompt ::
  "Prompt list \<Rightarrow> datetime \<Rightarrow> datetime \<Rightarrow> uuid \<Rightarrow> (error + Prompt) \<times> Prompt list" where
  "publish_prompt db now1 now2 pid =
     (case find (\<lambda>p. prompt_id p = pid) db of
        None \<Rightarrow> (Inl (HTTPException 404 ''Prompt not found''), db)
      | Some prompt \<Rightarrow>
          if prompt_status prompt \<noteq> PS_DRAFT
          then (Inl (HTTPException 400 ''Only draft prompts can be published''), db)
          else
            (let db1 = archive_active (prompt_fsm_state prompt) (prompt_language prompt) now1 db;
                 db2 = activate pid now2 db1
             in case find (\<lambda>p. prompt_id p = pid) db2 of
                  None \<Rightarrow> (Inl AttributeError, db2)
                | Some updated \<Rightarrow> (Inr updated, db2)))"

text \<open>Sequences of store operations: each carries its request and the values it reads
  from the environment.\<close>

datatype prompt_op =
    Create PromptEnv PromptCreateRequest
  | Update datetime uuid PromptUpdateRequest
  | MarkWeak datetime PromptEnv uuid PromptMarkWeakRequest
  | Publish datetime datetime uuid

fun prompt_step :: "Prompt list \<Rightarrow> prompt_op \<Rightarrow> (error + Prompt) \<times> Prompt list" where
  "prompt_step db (Create env request) = create_prompt db env request"
| "prompt_step db (Update now pid request) = update_prompt db now pid request"
| "prompt_step db (MarkWeak now env pid request) = mark_prompt_weak db now env pid request"
| "prompt_step db (Publish now1 now2 pid) = publish_prompt db now1 now2 pid"

fun prompt_run :: "Prompt list \<Rightarrow> prompt_op list \<Rightarrow> Prompt list" where
  "prompt_run db [] = db"
| "prompt_run db (op # ops) = prompt_run (snd (prompt_step db op)) ops"

subsection \<open>Sequences of operations\<close>

text \<open>Several \<^verbatim>\<open>webcall_input\<close> requests on one call id, each with its utterance and its
  environment; the first failure ends the sequence, as the exception would.\<close>

fun submit_all ::
  "Call list \<Rightarrow> uuid \<Rightarrow> (InputEnv \<times> string) list
     \<Rightarrow> error + (WebcallInputResponse list \<times> Call list)" where
  "submit_all db cid [] = Inr ([], db)"
| "submit_all db cid ((env, u) # rest) =
     (case webcall_input db env \<lparr>input_call_id = cid, user_input = u\<rparr> of
        (Inl e, _) \<Rightarrow> Inl e
      | (Inr r, db') \<Rightarrow>
          (case submit_all db' cid rest of
             Inl e \<Rightarrow> Inl e
           | Inr (rs, db'') \<Rightarrow> Inr (r # rs, db'')))"

text \<open>The turns that a sequence of answered inputs is expected to append, given the state
  before the first input: per input a user turn tagged with the state before it and an
  agent turn tagged with the state of the answer.\<close>

fun appended_turns ::
  "FSMState \<Rightarrow> ((InputEnv \<times> string) \<times> WebcallInputResponse) list \<Rightarrow> CallTurn list" where
  "appended_turns st [] = []"
| "appended_turns st (((env, u), r) # rest) =
     \<lparr>turn_id = user_turn_id env, timestamp = user_turn_now env, speaker = ''user'',
      turn_text = u, turn_audio_url = None, turn_fsm_state = st\<rparr>
     # \<lparr>turn_id = aira_turn_id env, timestamp = aira_turn_now env, speaker = ''aira'',
        turn_text = aira_response r, turn_audio_url = None,
        turn_fsm_state = answered_fsm_state r\<rparr>
     # appended_turns (answered_fsm_state r) rest"

text \<open>Every answer of the sequence is what the resolver returns for the state that the
  previous answer left.\<close>

fun resolved_chain ::
  "FSMState \<Rightarrow> Language \<Rightarrow> ((InputEnv \<times> string) \<times> WebcallInputResponse) list \<Rightarrow> bool" where
  "resolved_chain st l [] = True"
| "resolved_chain st l (((env, u), r) # rest) =
     (get_simulated_response st u l = Inr (aira_response r, answered_fsm_state r, is_final r)
      \<and> resolved_chain (answered_fsm_state r) l rest)"

text \<open>Sequences of engine operations and the trace of their results.\<close>

datatype engine_op =
    Start StartEnv WebcallStartRequest
  | Input InputEnv WebcallInputRequest
  | End datetime uuid

datatype engine_result =
    Started "error + WebcallStartResponse"
  | Answered "error + WebcallInputResponse"
  | Ended "error + string \<times> uuid"

fun engine_step :: "Call list \<Rightarrow> engine_op \<Rightarrow> engine_result \<times> Call list" where
  "engine_step db (Start env request) =
     (case webcall_start db env request of (r, db') \<Rightarrow> (Started r, db'))"
| "engine_step db (Input env request) =
     (case webcall_input db env request of (r, db') \<Rightarrow> (Answered r, db'))"
| "engine_step db (End now cid) =
     (case webcall_end db now cid of (r, db') \<Rightarrow> (Ended r, db'))"

fun engine_run ::
  "Call list \<Rightarrow> engine_op list \<Rightarrow> (engine_op \<times> engine_result) list \<times> Call list" where
  "engine_run db [] = ([], db)"
| "engine_run db (op # ops) =
     (case engine_step db op of
        (r, db') \<Rightarrow> (case engine_run db' ops of (tr, db'') \<Rightarrow> ((op, r) # tr, db'')))"

text \<open>The ids that the \<^verbatim>\<open>Start\<close> operations of a sequence draw for their calls.\<close>

fun started_ids :: "engine_op list \<Rightarrow> uuid list" where
  "started_ids [] = []"
| "started_ids (Start env request # ops) = new_call_id env # started_ids ops"
| "started_ids (_ # ops) = started_ids ops"

text \<open>An entry of the trace is an input on the call that was answered with
  \<^verbatim>\<open>is_final\<close>, respectively an \<^verbatim>\<open>end\<close> on the call that was acknowledged.\<close>

fun final_input_on :: "uuid \<Rightarrow> engine_op \<times> engine_result \<Rightarrow> bool" where
  "final_input_on cid (Input env request, Answered (Inr r)) =
     (input_call_id request = cid \<and> is_final r)"
| "final_input_on cid _ = False"

fun end_on :: "uuid \<Rightarrow> engine_op \<times> engine_result \<Rightarrow> bool" where
  "end_on cid (End now cid', Ended (Inr ack)) = (cid' = cid)"
| "end_on cid _ = False"

text \<open>The active prompts of one lineage.\<close>

definition active_in :: "FSMState \<Rightarrow> Language \<Rightarrow> Prompt list \<Rightarrow> Prompt list" where
  "active_in s l db =
     filter (\<lambda>p. prompt_fsm_state p = s \<and> prompt_language p = l \<and> prompt_status p = PS_ACTIVE) db"

fun is_publish :: "prompt_op \<Rightarrow> bool" where
  "is_publish (Publish now1 now2 pid) = True"
| "is_publish _ = False"

subsection \<open>Sample sessions and stores\<close>

definition english_start :: WebcallStartRequest where
  "english_start = \<lparr>start_test_mode = True, start_language = ENGLISH\<rparr>"

definition start_env :: StartEnv where
  "start_env = \<lparr>new_call_id = ''call-1'', new_session_id = ''session-1'',
                 new_turn_id = ''turn-0'', new_turn_now = 1, new_start_now = 2\<rparr>"

definition input_env :: "nat \<Rightarrow> InputEnv" where
  "input_env n = \<lparr>user_turn_id = ''user-'' @ str_nat n, user_turn_now = 10 * n,
                   aira_turn_id = ''aira-'' @ str_nat n, aira_turn_now = 10 * n + 1,
                   final_now = 10 * n + 2\<rparr>"

definition say :: "string \<Rightarrow> WebcallInputRequest" where
  "say u = \<lparr>input_call_id = ''call-1'', user_input = u\<rparr>"

text \<open>The session of the end-to-end scenario: start, then the three inputs.\<close>

definition session_0 :: "Call list" where
  "session_0 = snd (webcall_start [] start_env english_start)"

definition step_1 :: "(error + WebcallInputResponse) \<times> Call list" where
  "step_1 = webcall_input session_0 (input_env 1) (say ''I am interested in a demo'')"

definition step_2 :: "(error + WebcallInputResponse) \<times> Call list" where
  "step_2 = webcall_input (snd step_1) (input_env 2) (say ''yes please'')"

definition step_3 :: "(error + WebcallInputResponse) \<times> Call list" where
  "step_3 = webcall_input (snd step_2) (input_env 3) (say ''no thanks, ok bye'')"

text \<open>The same inputs after a first input \<^verbatim>\<open>hello\<close>, which moves the session from
  greeting to qualification.\<close>

definition hello_0 :: "(error + WebcallInputResponse) \<times> Call list" where
  "hello_0 = webcall_input session_0 (input_env 0) (say ''hello'')"

definition hello_1 :: "(error + WebcallInputResponse) \<times> Call list" where
  "hello_1 = webcall_input (snd hello_0) (input_env 1) (say ''I am interested in a demo'')"

definition hello_2 :: "(error + WebcallInputResponse) \<times> Call list" where
  "hello_2 = webcall_input (snd hello_1) (input_env 2) (say ''yes please'')"

definition hello_3 :: "(error + WebcallInputResponse) \<times> Call list" where
  "hello_3 = webcall_input (snd hello_2) (input_env 3) (say ''no thanks, ok bye'')"

definition outcome :: "(error + WebcallInputResponse) \<times> Call list \<Rightarrow> error + FSMState \<times> bool" where
  "outcome res = map_sum (\<lambda>e. e) (\<lambda>r. (answered_fsm_state r, is_final r)) (fst res)"

text \<open>Prompts of the lineage (qualification, en).\<close>

definition prompt_env :: "nat \<Rightarrow> PromptEnv" where
  "prompt_env n = \<lparr>new_prompt_id = ''prompt-'' @ str_nat n, new_created_at = 10 * n,
                    new_updated_at = 10 * n + 1\<rparr>"

definition qualification_en :: "string \<Rightarrow> PromptCreateRequest" where
  "qualification_en t = \<lparr>new_fsm_state = QUALIFICATION, new_language = ENGLISH,
                           new_text = t, new_notes = None\<rparr>"

definition replace_with :: "string \<Rightarrow> PromptMarkWeakRequest" where
  "replace_with t = \<lparr>replacement_text = t, weak_notes = None\<rparr>"

definition first_prompt :: Prompt where
  "first_prompt = \<lparr>prompt_id = ''prompt-1'', prompt_fsm_state = QUALIFICATION,
                    prompt_language = ENGLISH, prompt_text = ''first'',
                    prompt_status = PS_DRAFT, version = 1, created_at = 10, updated_at = 11,
                    created_by = ''admin'', prompt_notes = None\<rparr>"

definition store_1 :: "Prompt list" where
  "store_1 = prompt_run [] [Create (prompt_env 1) (qualification_en ''first'')]"

text \<open>A store of the lineage (demo-offer, es): a published prompt and a later draft.\<close>

definition demo_offer_es :: "string \<Rightarrow> PromptCreateRequest" where
  "demo_offer_es t = \<lparr>new_fsm_state = DEMO_OFFER, new_language = SPANISH,
                        new_text = t, new_notes = None\<rparr>"

definition store_2 :: "Prompt list" where
  "store_2 = prompt_run []
     [Create (prompt_env 1) (demo_offer_es ''uno''),
      Publish 20 21 ''prompt-1'',
      Create (prompt_env 3) (demo_offer_es ''dos'')]"

text \<open>Two inputs on the sample session, and what \<^verbatim>\<open>submit_all\<close> returns for them.\<close>

definition two_inputs :: "(InputEnv \<times> string) list" where
  "two_inputs = [(input_env 0, ''hello''), (input_env 1, ''I am interested in a demo'')]"

definition two_answers :: "WebcallInputResponse list" where
  "two_answers =
     (case submit_all session_0 ''call-1'' two_inputs of Inl e \<Rightarrow> [] | Inr (rs, db) \<Rightarrow> rs)"

definition two_db :: "Call list" where
  "two_db =
     (case submit_all session_0 ''call-1'' two_inputs of Inl e \<Rightarrow> [] | Inr (rs, db) \<Rightarrow> db)"

subsection \<open>Invariants of the engine\<close>

text \<open>A call is either active with no end time and no exit reason, or completed with
  both.\<close>

definition call_wf :: "Call \<Rightarrow> bool" where
  "call_wf c =
     (if call_status c = CS_ACTIVE then end_time c = None \<and> exit_reason c = None
      else call_status c = CS_COMPLETED \<and> end_time c \<noteq> None \<and> exit_reason c \<noteq> None)"

text \<open>The fields of a call agree with the trace: completed by a final input, completed
  by an acknowledged end, or still active, with no entry of the other kinds.\<close>

definition call_trace_ok :: "(engine_op \<times> engine_result) list \<Rightarrow> Call \<Rightarrow> bool" where
  "call_trace_ok tr c =
     (if list_ex (final_input_on (call_id c)) tr
      then \<not> list_ex (end_on (call_id c)) tr \<and> call_status c = CS_COMPLETED
           \<and> end_time c \<noteq> None \<and> exit_reason c = Some ER_COMPLETED
      else if list_ex (end_on (call_id c)) tr
      then call_status c = CS_COMPLETED \<and> end_time c \<noteq> None
           \<and> exit_reason c = Some ER_USER_HANGUP
      else call_status c = CS_ACTIVE \<and> end_time c = None \<and> exit_reason c = None)"

text \<open>An entry of the trace that completes the call with the given id.\<close>

definition completes :: "uuid \<Rightarrow> engine_op \<times> engine_result \<Rightarrow> bool" where
  "completes cid ev = (final_input_on cid ev \<or> end_on cid ev)"

definition engine_inv ::
  "engine_op list \<Rightarrow> (engine_op \<times> engine_result) list \<Rightarrow> Call list \<Rightarrow> bool" where
  "engine_inv ops tr db =
     (map call_id db = started_ids ops
      \<and> list_all (call_trace_ok tr) db
      \<and> (\<forall>cid. list_ex (completes cid) tr \<longrightarrow> cid \<in> set (started_ids ops)))"

text \<open>Two sessions: the first is completed by a final input, the second by \<^verbatim>\<open>end\<close>.\<close>

definition start_env_2 :: StartEnv where
  "start_env_2 = \<lparr>new_call_id = ''call-2'', new_session_id = ''session-2'',
                   new_turn_id = ''turn-00'', new_turn_now = 40, new_start_now = 41\<rparr>"

definition two_sessions :: "engine_op list" where
  "two_sessions =
     [Start start_env english_start,
      Input (input_env 1) (say ''no thanks''),
      End 30 ''call-1'',
      Start start_env_2 english_start,
      End 50 ''call-2'']"

definition two_trace :: "(engine_op \<times> engine_result) list" where
  "two_trace = fst (engine_run [] two_sessions)"

definition two_calls :: "Call list" where
  "two_calls = snd (engine_run [] two_sessions)"

section \<open>Properties\<close>

subsection \<open>The resolver never raises\<close>

lemma responses_english:
  "responses s = Some d \<Longrightarrow> \<exists>e. d ENGLISH = Some e"
  by (cases s) (auto simp: responses_def)

lemma get_or_english_total:
  assumes "responses s = Some d"
  shows "\<exists>e. get_or_english d l = Inr e"
proof -
  obtain e where "d ENGLISH = Some e" using responses_english[OF assms] by blast
  then have "get_or_english d l = Inr (case d l of Some e' \<Rightarrow> e' | None \<Rightarrow> e)"
    by (simp add: get_or_english_def)
  then show ?thesis by (rule exI)
qed

lemma choose_next_state_total: "\<exists>n. choose_next_state s u l = Inr n"
proof (cases "responses s")
  case None
  then show ?thesis by (simp add: choose_next_state_def)
next
  case (Some d)
  from get_or_english_total[OF Some, of l] obtain e where "get_or_english d l = Inr e"
    by blast
  with Some show ?thesis by (cases e) (simp add: choose_next_state_def)
qed

lemma get_simulated_response_total:
  "\<exists>e. get_simulated_response s u l = Inr e"
proof -
  obtain n where n: "choose_next_state s (lower u) l = Inr n"
    using choose_next_state_total by blast
  show ?thesis
  proof (cases "responses n")
    case None
    with n have "get_simulated_response s u l =
        Inr (''I'm here to help. Could you tell me more?'', QUALIFICATION, False)"
      by (simp add: get_simulated_response_def)
    then show ?thesis by (rule exI)
  next
    case (Some d)
    from get_or_english_total[OF Some, of l] obtain t n' f where "get_or_english d l = Inr (t, n', f)"
      by (metis prod_cases3)
    with Some n have "get_simulated_response s u l = Inr (t, n, f)"
      by (simp add: get_simulated_response_def)
    then show ?thesis by (rule exI)
  qed
qed

lemma greeting_empty: "\<exists>t. get_simulated_response GREETING [] l = Inr (t, QUALIFICATION, False)"
  by (cases l) (simp_all add: get_simulated_response_def choose_next_state_def lower_def responses_def get_or_english_def)

subsection \<open>Collection primitives\<close>

lemma update_one_no_match: "\<not> list_ex P xs \<Longrightarrow> update_one P f xs = xs"
  by (induction xs) simp_all

lemma map_if_key_absent:
  "a \<notin> k ` set xs \<Longrightarrow> map (\<lambda>y. if k y = a then f y else y) xs = xs"
  by (induction xs) auto

lemma update_one_by_key:
  "distinct (map k xs) \<Longrightarrow> list_ex P xs \<Longrightarrow> (\<And>y. P y \<Longrightarrow> k y = a) \<Longrightarrow>
   update_one P f xs = map (\<lambda>y. if k y = a then f y else y) xs"
proof (induction xs)
  case Nil
  then show ?case by simp
next
  case (Cons y ys)
  have notin: "k y \<notin> k ` set ys" and dist: "distinct (map k ys)"
    using Cons.prems(1) by simp_all
  show ?case
  proof (cases "P y")
    case True
    then have ky: "k y = a" by (rule Cons.prems(3))
    have "a \<notin> k ` set ys" using notin unfolding ky .
    then have "map (\<lambda>z. if k z = a then f z else z) ys = ys"
      by (rule map_if_key_absent)
    then show ?thesis using True ky by simp
  next
    case False
    then have ex: "list_ex P ys" using Cons.prems(2) by simp
    then obtain x where "x \<in> set ys" "P x" unfolding list_ex_iff by blast
    then have "a \<in> k ` set ys" using Cons.prems(3) by (metis imageI)
    then have "k y \<noteq> a" using notin by blast
    moreover have "update_one P f ys = map (\<lambda>z. if k z = a then f z else z) ys"
      using dist ex Cons.prems(3) by (rule Cons.IH)
    ultimately show ?thesis using False by simp
  qed
qed

lemma find_map_same_pred:
  "(\<And>x. R (g x) = R x) \<Longrightarrow> find R (map g xs) = map_option g (find R xs)"
  by (induction xs) simp_all

lemma find_update_one:
  "(\<And>x. Q (f x) = Q x) \<Longrightarrow> find Q (update_one Q f xs) = map_option f (find Q xs)"
  by (induction xs) simp_all

lemma update_one_no_find: "find R xs = None \<Longrightarrow> update_one R f xs = xs"
  by (induction xs) (simp_all split: if_splits)

lemma filter_update_one_le:
  "(\<And>x. Q (f x) \<Longrightarrow> Q x) \<Longrightarrow> length (filter Q (update_one R f xs)) \<le> length (filter Q xs)"
  by (induction xs) auto

lemma filter_update_one_le_Suc:
  "length (filter Q (update_one R f xs)) \<le> Suc (length (filter Q xs))"
  by (induction xs) auto

lemma filter_update_one_first:
  "find R xs = Some x \<Longrightarrow> Q (f x) = Q x \<Longrightarrow>
   length (filter Q (update_one R f xs)) = length (filter Q xs)"
  by (induction xs) (auto split: if_splits)

lemma filter_update_one_single:
  "filter Q xs = [] \<Longrightarrow> find R xs = Some x \<Longrightarrow> Q (f x) \<Longrightarrow>
   filter Q (update_one R f xs) = [f x]"
  by (induction xs) (auto split: if_splits)

lemma set_update_one:
  "y \<in> set (update_one R f xs) \<Longrightarrow> y \<in> set xs \<or> (\<exists>x. find R xs = Some x \<and> y = f x)"
  by (induction xs) (auto split: if_splits)

lemma update_one_at_first_match:
  "find Q xs = Some x \<Longrightarrow> \<exists>i<length xs. xs ! i = x \<and> update_one Q f xs = xs[i := f x]"
proof (induction xs)
  case Nil
  then show ?case by simp
next
  case (Cons y ys)
  show ?case
  proof (cases "Q y")
    case True
    then have "y = x" using Cons.prems by simp
    then have "(y # ys) ! 0 = x \<and> update_one Q f (y # ys) = (y # ys)[0 := f x]"
      using True by simp
    then show ?thesis by blast
  next
    case False
    then have "find Q ys = Some x" using Cons.prems by simp
    then obtain i where i: "i < length ys" "ys ! i = x" "update_one Q f ys = ys[i := f x]"
      using Cons.IH by blast
    then have "Suc i < length (y # ys) \<and> (y # ys) ! Suc i = x
        \<and> update_one Q f (y # ys) = (y # ys)[Suc i := f x]"
      using False by simp
    then show ?thesis by blast
  qed
qed

subsection \<open>Resolver precedence\<close>

text \<open>
  C3. The claim puts the decline keywords first: every utterance that contains \<^verbatim>\<open>no\<close> or
  \<^verbatim>\<open>not interested\<close> resolves to closing, in particular \<^verbatim>\<open>not interested\<close> itself. The
  source tests the affirmative family first, and \<^verbatim>\<open>not interested\<close> contains
  \<^verbatim>\<open>interested\<close>: from the greeting state the utterance resolves to confirmation, with
  the confirmation template and \<^verbatim>\<open>is_final = False\<close>.
\<close>

theorem not_interested_goes_to_confirmation:
  "get_simulated_response GREETING ''not interested'' ENGLISH =
     Inr (''Perfect! I've scheduled your demo. You'll receive a confirmation email shortly. Is there anything else I can help you with?'',
          CONFIRMATION, False)"
  by code_simp

subsection \<open>Version numbers of a lineage\<close>

text \<open>
  C2. The claim asks that no two prompts of a lineage share a version number. Two creations
  in (qualification, en) followed by \<^verbatim>\<open>mark-weak\<close> on the first prompt leave the versions
  1, 2, 2: \<^verbatim>\<open>mark_prompt_weak\<close> numbers the replacement from the marked prompt, where
  \<^verbatim>\<open>create_prompt\<close> numbers from the largest version of the lineage.
\<close>

theorem mark_weak_reuses_version:
  "map version
     (prompt_run []
        [Create (prompt_env 1) (qualification_en ''first''),
         Create (prompt_env 2) (qualification_en ''second''),
         MarkWeak 30 (prompt_env 3) ''prompt-1'' (replace_with ''third'')])
   = [1, 2, 2]"
  by code_simp

subsection \<open>Editing a prompt that is not a draft\<close>

text \<open>
  C5. The claim asks that \<^verbatim>\<open>update\<close> on a prompt that is not a draft fails and changes
  nothing. The source refuses active prompts only: on a weak prompt the update succeeds
  and rewrites text, notes and \<^verbatim>\<open>updated_at\<close>.
\<close>

theorem update_edits_weak_prompt:
  "update_prompt
     (prompt_run []
        [Create (prompt_env 1) (qualification_en ''first''),
         MarkWeak 20 (prompt_env 2) ''prompt-1'' (replace_with ''second'')])
     30 ''prompt-1'' \<lparr>update_text = ''edited'', update_notes = Some ''late''\<rparr>
   = (Inr \<lparr>prompt_id = ''prompt-1'', prompt_fsm_state = QUALIFICATION,
            prompt_language = ENGLISH, prompt_text = ''edited'', prompt_status = PS_WEAK,
            version = 1, created_at = 10, updated_at = 30, created_by = ''admin'',
            prompt_notes = Some ''late''\<rparr>,
      [\<lparr>prompt_id = ''prompt-1'', prompt_fsm_state = QUALIFICATION,
            prompt_language = ENGLISH, prompt_text = ''edited'', prompt_status = PS_WEAK,
            version = 1, created_at = 10, updated_at = 30, created_by = ''admin'',
            prompt_notes = Some ''late''\<rparr>,
       \<lparr>prompt_id = ''prompt-2'', prompt_fsm_state = QUALIFICATION,
            prompt_language = ENGLISH, prompt_text = ''second'', prompt_status = PS_DRAFT,
            version = 2, created_at = 20, updated_at = 21, created_by = ''admin'',
            prompt_notes = Some ''Replacement for weak prompt prompt-1''\<rparr>])"
  by code_simp

subsection \<open>The end-to-end scenario\<close>

text \<open>
  C4, as stated: right after \<^verbatim>\<open>start\<close> the session is in the qualification state and the
  input \<^verbatim>\<open>I am interested in a demo\<close> is answered with demo-offer. In the source the
  session is in the greeting state after \<^verbatim>\<open>start\<close>, and the answer is confirmation.
\<close>

theorem first_input_after_start_counterexample:
  "map call_fsm_state session_0 = [GREETING]
   \<and> outcome step_1 = Inr (CONFIRMATION, False)
   \<and> outcome step_1 \<noteq> Inr (DEMO_OFFER, False)"
  by code_simp

text \<open>
  C4, amended. After \<^verbatim>\<open>start(en)\<close> the session is in the greeting state; the input
  \<^verbatim>\<open>I am interested in a demo\<close> returns confirmation with \<^verbatim>\<open>is_final = False\<close> and sets
  \<^verbatim>\<open>demo_intent\<close> in the qualification data and on the call; \<^verbatim>\<open>yes please\<close> returns
  confirmation; \<^verbatim>\<open>no thanks, ok bye\<close> returns closing with \<^verbatim>\<open>is_final = True\<close> and the call
  is completed. When a first input \<^verbatim>\<open>hello\<close> has moved the session to qualification, the
  three inputs return demo-offer (not final, \<^verbatim>\<open>demo_intent\<close> set), confirmation, and
  closing (final, call completed).
\<close>

theorem end_to_end_scenario:
  "map call_fsm_state session_0 = [GREETING]
   \<and> outcome step_1 = Inr (CONFIRMATION, False)
   \<and> map (\<lambda>c. (map_of (qualification_data c) ''demo_intent'', demo_intent c)) (snd step_1) = [(Some True, True)]
   \<and> outcome step_2 = Inr (CONFIRMATION, False)
   \<and> outcome step_3 = Inr (CLOSING, True)
   \<and> map (\<lambda>c. (call_status c, exit_reason c)) (snd step_3) = [(CS_COMPLETED, Some ER_COMPLETED)]
   \<and> outcome hello_0 = Inr (QUALIFICATION, False)
   \<and> map call_fsm_state (snd hello_0) = [QUALIFICATION]
   \<and> outcome hello_1 = Inr (DEMO_OFFER, False)
   \<and> map (\<lambda>c. (map_of (qualification_data c) ''demo_intent'', demo_intent c)) (snd hello_1) = [(Some True, True)]
   \<and> outcome hello_2 = Inr (CONFIRMATION, False)
   \<and> outcome hello_3 = Inr (CLOSING, True)
   \<and> map (\<lambda>c. (call_status c, exit_reason c)) (snd hello_3) = [(CS_COMPLETED, Some ER_COMPLETED)]"
  by code_simp

subsection \<open>Starting a session\<close>

text \<open>For every language, test-mode flag, collection and environment, \<^verbatim>\<open>webcall_start\<close>
  succeeds. It appends one call with the drawn call and session ids, status active, state
  greeting, and exactly one turn, spoken by the agent and tagged with the greeting state,
  whose text is the returned \<^verbatim>\<open>initial_message\<close>: what the resolver returns for the greeting
  state and the empty utterance.\<close>

lemma webcall_start_result:
  "\<exists>message.
     get_simulated_response GREETING [] (start_language request) = Inr (message, QUALIFICATION, False)
     \<and> webcall_start db env request =
         (Inr \<lparr>started_call_id = new_call_id env,
               started_session_id = new_session_id env,
               initial_message = message,
               started_fsm_state = GREETING,
               started_audio_url = Some (''/api/audio/'' @ new_call_id env @ ''/0'')\<rparr>,
          db @ [\<lparr>call_id = new_call_id env,
                 session_id = new_session_id env,
                 call_status = CS_ACTIVE,
                 call_fsm_state = GREETING,
                 call_language = start_language request,
                 test_mode = start_test_mode request,
                 start_time = new_start_now env,
                 end_time = None,
                 exit_reason = None,
                 turns = [\<lparr>turn_id = new_turn_id env,
                           timestamp = new_turn_now env,
                           speaker = ''aira'',
                           turn_text = message,
                           turn_audio_url = None,
                           turn_fsm_state = GREETING\<rparr>],
                 qualification_data = [],
                 demo_intent = False,
                 demo_confirmed = False,
                 objections = []\<rparr>])"
proof -
  obtain t where t: "get_simulated_response GREETING [] (start_language request) = Inr (t, QUALIFICATION, False)"
    using greeting_empty by blast
  then show ?thesis
    by (simp add: webcall_start_def insert_one_def)
qed

text \<open>The resolver looks the text up under the state it moves to. From greeting with the
  empty utterance it moves to qualification, so the opening message is the template of the
  qualification state, in Spanish for a Spanish session and in English otherwise.\<close>

lemma opening_message_is_qualification_template:
  "map_sum (\<lambda>e. e) (\<lambda>(t, n, f). (Some t, n, f)) (get_simulated_response GREETING [] l) =
     Inr (template_text QUALIFICATION (if l = SPANISH then SPANISH else ENGLISH),
          QUALIFICATION, False)"
  by (cases l)
    (simp_all add: get_simulated_response_def choose_next_state_def lower_def responses_def
      get_or_english_def template_text_def)

text \<open>No state, utterance and language make the resolver move to greeting, so the template
  stored under greeting is never looked up.\<close>

lemma choose_next_state_never_greeting:
  "choose_next_state s u l = Inr n \<Longrightarrow> responses n \<noteq> None \<Longrightarrow> n \<noteq> GREETING"
  by (cases s; cases l)
    (auto simp: choose_next_state_def responses_def get_or_english_def split: if_splits)

lemma resolver_never_greeting:
  assumes "get_simulated_response s u l = Inr (t, n, f)"
  shows "n \<noteq> GREETING"
proof -
  obtain m where m: "choose_next_state s (lower u) l = Inr m"
    using choose_next_state_total by blast
  show ?thesis
  proof (cases "responses m")
    case None
    then have "n = QUALIFICATION" using assms m by (simp add: get_simulated_response_def)
    then show ?thesis by simp
  next
    case (Some d)
    obtain t' n' f' where "get_or_english d l = Inr (t', n', f')"
      using get_or_english_total[OF Some, of l] by (metis prod_cases3)
    then have "n = m" using assms m Some by (simp add: get_simulated_response_def)
    moreover have "m \<noteq> GREETING" using m Some by (intro choose_next_state_never_greeting) simp_all
    ultimately show ?thesis by simp
  qed
qed


subsection \<open>Ending a session\<close>

text \<open>
  C10. When no call with the given id is active (the id is unknown, or the call has
  another status), \<^verbatim>\<open>webcall_end\<close> fails with status 404 (NotFound) and the collection is
  unchanged. When call ids are unique and a call with the id is active, \<^verbatim>\<open>webcall_end\<close>
  succeeds: that call becomes completed with the given end time and exit reason
  user-hangup, every other call is unchanged, and a second \<^verbatim>\<open>webcall_end\<close> on the id
  fails with 404.
\<close>

theorem webcall_end_exactly_once:
  "(\<not> list_ex (\<lambda>c. call_id c = cid \<and> call_status c = CS_ACTIVE) db \<longrightarrow>
      webcall_end db now cid = (Inl (HTTPException 404 ''Active call not found''), db))
   \<and> (distinct (map call_id db) \<and> list_ex (\<lambda>c. call_id c = cid \<and> call_status c = CS_ACTIVE) db \<longrightarrow>
      (let db' = map (\<lambda>c. if call_id c = cid
                          then c\<lparr>call_status := CS_COMPLETED, end_time := Some now,
                                 exit_reason := Some ER_USER_HANGUP\<rparr>
                          else c) db
       in webcall_end db now cid = (Inr (''Call ended'', cid), db')
          \<and> webcall_end db' now' cid = (Inl (HTTPException 404 ''Active call not found''), db')))"
proof (intro conjI impI)
  assume "\<not> list_ex (\<lambda>c. call_id c = cid \<and> call_status c = CS_ACTIVE) db"
  then show "webcall_end db now cid = (Inl (HTTPException 404 ''Active call not found''), db)"
    by (simp add: webcall_end_def update_one_no_match)
next
  let ?P = "\<lambda>c. call_id c = cid \<and> call_status c = CS_ACTIVE"
  let ?f = "\<lambda>c. c\<lparr>call_status := CS_COMPLETED, end_time := Some now,
                    exit_reason := Some ER_USER_HANGUP\<rparr>"
  let ?db' = "map (\<lambda>c. if call_id c = cid then ?f c else c) db"
  assume a: "distinct (map call_id db) \<and> list_ex ?P db"
  then have dist: "distinct (map call_id db)" and ex: "list_ex ?P db" by simp_all
  have upd: "update_one ?P ?f db = ?db'"
    using dist ex by (rule update_one_by_key) simp
  have first: "webcall_end db now cid = (Inr (''Call ended'', cid), ?db')"
    using ex upd by (simp add: webcall_end_def)
  have "\<not> list_ex ?P ?db'"
    by (induction db) simp_all
  then have second:
    "webcall_end ?db' now' cid = (Inl (HTTPException 404 ''Active call not found''), ?db')"
    by (simp add: webcall_end_def update_one_no_match)
  show "let db' = ?db' in webcall_end db now cid = (Inr (''Call ended'', cid), db')
          \<and> webcall_end db' now' cid = (Inl (HTTPException 404 ''Active call not found''), db')"
    unfolding Let_def using first second by (rule conjI)
qed

theorem webcall_end_exactly_once_witness:
  "\<not> list_ex (\<lambda>c. call_id c = ''call-1'' \<and> call_status c = CS_ACTIVE) []
   \<and> webcall_end [] 40 ''call-1'' = (Inl (HTTPException 404 ''Active call not found''), [])
   \<and> distinct (map call_id session_0)
   \<and> list_ex (\<lambda>c. call_id c = ''call-1'' \<and> call_status c = CS_ACTIVE) session_0
   \<and> (let db' = map (\<lambda>c. if call_id c = ''call-1''
                          then c\<lparr>call_status := CS_COMPLETED, end_time := Some 40,
                                 exit_reason := Some ER_USER_HANGUP\<rparr>
                          else c) session_0
       in webcall_end session_0 40 ''call-1'' = (Inr (''Call ended'', ''call-1''), db')
          \<and> webcall_end db' 50 ''call-1'' = (Inl (HTTPException 404 ''Active call not found''), db'))"
proof -
  have h0: "\<not> list_ex (\<lambda>c. call_id c = ''call-1'' \<and> call_status c = CS_ACTIVE) []"
    by simp
  have h1: "distinct (map call_id session_0)"
    by code_simp
  have h2: "list_ex (\<lambda>c. call_id c = ''call-1'' \<and> call_status c = CS_ACTIVE) session_0"
    by code_simp
  have a: "webcall_end [] 40 ''call-1'' = (Inl (HTTPException 404 ''Active call not found''), [])"
    by (rule mp [OF conjunct1 [OF webcall_end_exactly_once] h0])
  have b: "let db' = map (\<lambda>c. if call_id c = ''call-1''
                          then c\<lparr>call_status := CS_COMPLETED, end_time := Some 40,
                                 exit_reason := Some ER_USER_HANGUP\<rparr>
                          else c) session_0
       in webcall_end session_0 40 ''call-1'' = (Inr (''Call ended'', ''call-1''), db')
          \<and> webcall_end db' 50 ''call-1'' = (Inl (HTTPException 404 ''Active call not found''), db')"
    by (rule mp [OF conjunct2 [OF webcall_end_exactly_once] conjI [OF h1 h2]])
  show ?thesis
    using h0 a h1 h2 b by (intro conjI)
qed

subsection \<open>Marking a prompt weak\<close>

lemma strip_empty_iff: "strip s = [] \<longleftrightarrow> list_all isspace s"
proof
  assume "strip s = []"
  then have all: "\<forall>x\<in>set (dropWhile isspace s). isspace x"
    by (simp add: strip_def dropWhile_eq_Nil_conv)
  have "dropWhile isspace s = []"
  proof (rule ccontr)
    assume ne: "dropWhile isspace s \<noteq> []"
    then have "\<not> isspace (hd (dropWhile isspace s))" by (rule hd_dropWhile)
    moreover have "hd (dropWhile isspace s) \<in> set (dropWhile isspace s)" using ne by simp
    ultimately show False using all by blast
  qed
  then show "list_all isspace s"
    by (metis dropWhile_eq_Nil_conv list_all_iff)
next
  assume "list_all isspace s"
  then have "dropWhile isspace s = []"
    by (metis dropWhile_eq_Nil_conv list_all_iff)
  then show "strip s = []" unfolding strip_def by (simp del: dropWhile_eq_Nil_conv)
qed

text \<open>
  C9. For an unknown prompt id \<^verbatim>\<open>mark_prompt_weak\<close> fails with status 404 (NotFound). For
  an existing prompt \<open>P\<close> and a replacement text that is empty or all whitespace it fails
  with status 400 (ValidationError) and the store is unchanged. For any other replacement
  text it succeeds: \<open>P\<close>, at its position in the store, gets status weak and the given
  \<^verbatim>\<open>updated_at\<close>, every other prompt is unchanged, and exactly one prompt is appended and
  returned: same state and language as \<open>P\<close>, version \<open>version P + 1\<close>, status draft, the
  replacement text as given, and as notes the caller's notes or, when there are none, the
  reference \<^verbatim>\<open>Replacement for weak prompt <id of P>\<close>.
\<close>

theorem mark_prompt_weak_contract:
  "(find (\<lambda>p. prompt_id p = pid) db = None \<longrightarrow>
      mark_prompt_weak db now env pid request =
        (Inl (HTTPException 404 ''Prompt not found''), db))
   \<and> (find (\<lambda>p. prompt_id p = pid) db = Some P \<and> list_all isspace (replacement_text request) \<longrightarrow>
      mark_prompt_weak db now env pid request =
        (Inl (HTTPException 400 ''Replacement text is required when marking a prompt as weak''),
         db))
   \<and> (find (\<lambda>p. prompt_id p = pid) db = Some P \<and> \<not> list_all isspace (replacement_text request) \<longrightarrow>
      (\<exists>i<length db. db ! i = P \<and>
         mark_prompt_weak db now env pid request =
           (let new_prompt =
                  \<lparr>prompt_id = new_prompt_id env,
                   prompt_fsm_state = prompt_fsm_state P,
                   prompt_language = prompt_language P,
                   prompt_text = replacement_text request,
                   prompt_status = PS_DRAFT,
                   version = version P + 1,
                   created_at = new_created_at env,
                   updated_at = new_updated_at env,
                   created_by = ''admin'',
                   prompt_notes =
                     Some (case weak_notes request of
                             None \<Rightarrow> ''Replacement for weak prompt '' @ pid
                           | Some n \<Rightarrow>
                               if n = [] then ''Replacement for weak prompt '' @ pid else n)\<rparr>
            in (Inr new_prompt,
                db[i := P\<lparr>prompt_status := PS_WEAK, updated_at := now\<rparr>] @ [new_prompt]))))"
proof (intro conjI impI)
  assume "find (\<lambda>p. prompt_id p = pid) db = None"
  then show "mark_prompt_weak db now env pid request =
        (Inl (HTTPException 404 ''Prompt not found''), db)"
    by (simp add: mark_prompt_weak_def)
next
  assume "find (\<lambda>p. prompt_id p = pid) db = Some P \<and> list_all isspace (replacement_text request)"
  then show "mark_prompt_weak db now env pid request =
        (Inl (HTTPException 400 ''Replacement text is required when marking a prompt as weak''),
         db)"
    by (simp add: mark_prompt_weak_def strip_empty_iff)
next
  assume a: "find (\<lambda>p. prompt_id p = pid) db = Some P \<and> \<not> list_all isspace (replacement_text request)"
  then have f: "find (\<lambda>p. prompt_id p = pid) db = Some P"
    and ns: "strip (replacement_text request) \<noteq> []"
    by (simp_all add: strip_empty_iff)
  obtain i where i: "i < length db" "db ! i = P"
    "update_one (\<lambda>p. prompt_id p = pid) (\<lambda>p. p\<lparr>prompt_status := PS_WEAK, updated_at := now\<rparr>) db
       = db[i := P\<lparr>prompt_status := PS_WEAK, updated_at := now\<rparr>]"
    using update_one_at_first_match[OF f] by blast
  have "mark_prompt_weak db now env pid request =
           (let new_prompt =
                  \<lparr>prompt_id = new_prompt_id env,
                   prompt_fsm_state = prompt_fsm_state P,
                   prompt_language = prompt_language P,
                   prompt_text = replacement_text request,
                   prompt_status = PS_DRAFT,
                   version = version P + 1,
                   created_at = new_created_at env,
                   updated_at = new_updated_at env,
                   created_by = ''admin'',
                   prompt_notes =
                     Some (case weak_notes request of
                             None \<Rightarrow> ''Replacement for weak prompt '' @ pid
                           | Some n \<Rightarrow>
                               if n = [] then ''Replacement for weak prompt '' @ pid else n)\<rparr>
            in (Inr new_prompt,
                db[i := P\<lparr>prompt_status := PS_WEAK, updated_at := now\<rparr>] @ [new_prompt]))"
    using f ns i(3) by (simp add: mark_prompt_weak_def insert_one_def Let_def)
  with i(1,2) show "\<exists>i<length db. db ! i = P \<and>
         mark_prompt_weak db now env pid request =
           (let new_prompt =
                  \<lparr>prompt_id = new_prompt_id env,
                   prompt_fsm_state = prompt_fsm_state P,
                   prompt_language = prompt_language P,
                   prompt_text = replacement_text request,
                   prompt_status = PS_DRAFT,
                   version = version P + 1,
                   created_at = new_created_at env,
                   updated_at = new_updated_at env,
                   created_by = ''admin'',
                   prompt_notes =
                     Some (case weak_notes request of
                             None \<Rightarrow> ''Replacement for weak prompt '' @ pid
                           | Some n \<Rightarrow>
                               if n = [] then ''Replacement for weak prompt '' @ pid else n)\<rparr>
            in (Inr new_prompt,
                db[i := P\<lparr>prompt_status := PS_WEAK, updated_at := now\<rparr>] @ [new_prompt]))"
    by blast
qed


theorem mark_prompt_weak_contract_witness:
  "find (\<lambda>p. prompt_id p = ''prompt-9'') store_1 = None
   \<and> mark_prompt_weak store_1 20 (prompt_env 2) ''prompt-9'' (replace_with ''X'') =
        (Inl (HTTPException 404 ''Prompt not found''), store_1)
   \<and> find (\<lambda>p. prompt_id p = ''prompt-1'') store_1 = Some first_prompt
   \<and> list_all isspace (replacement_text (replace_with ''  ''))
   \<and> mark_prompt_weak store_1 20 (prompt_env 2) ''prompt-1'' (replace_with ''  '') =
        (Inl (HTTPException 400 ''Replacement text is required when marking a prompt as weak''),
         store_1)
   \<and> \<not> list_all isspace (replacement_text (replace_with ''X''))
   \<and> mark_prompt_weak store_1 20 (prompt_env 2) ''prompt-1'' (replace_with ''X'') =
        (Inr \<lparr>prompt_id = ''prompt-2'', prompt_fsm_state = QUALIFICATION,
               prompt_language = ENGLISH, prompt_text = ''X'', prompt_status = PS_DRAFT,
               version = 2, created_at = 20, updated_at = 21, created_by = ''admin'',
               prompt_notes = Some ''Replacement for weak prompt prompt-1''\<rparr>,
         [first_prompt\<lparr>prompt_status := PS_WEAK, updated_at := 20\<rparr>,
          \<lparr>prompt_id = ''prompt-2'', prompt_fsm_state = QUALIFICATION,
               prompt_language = ENGLISH, prompt_text = ''X'', prompt_status = PS_DRAFT,
               version = 2, created_at = 20, updated_at = 21, created_by = ''admin'',
               prompt_notes = Some ''Replacement for weak prompt prompt-1''\<rparr>])"
proof -
  have f0: "find (\<lambda>p. prompt_id p = ''prompt-9'') store_1 = None"
    by code_simp
  have f1: "find (\<lambda>p. prompt_id p = ''prompt-1'') store_1 = Some first_prompt"
    by code_simp
  have w: "list_all isspace (replacement_text (replace_with ''  ''))"
    by code_simp
  have nw: "\<not> list_all isspace (replacement_text (replace_with ''X''))"
    by code_simp
  have a: "mark_prompt_weak store_1 20 (prompt_env 2) ''prompt-9'' (replace_with ''X'') =
        (Inl (HTTPException 404 ''Prompt not found''), store_1)"
    by (rule mp [OF conjunct1 [OF mark_prompt_weak_contract] f0])
  have b: "mark_prompt_weak store_1 20 (prompt_env 2) ''prompt-1'' (replace_with ''  '') =
        (Inl (HTTPException 400 ''Replacement text is required when marking a prompt as weak''),
         store_1)"
    by (rule mp [OF conjunct1 [OF conjunct2 [OF mark_prompt_weak_contract]] conjI [OF f1 w]])
  have s1: "store_1 = [first_prompt]"
    by code_simp
  obtain i where i: "i < length store_1"
    and r: "mark_prompt_weak store_1 20 (prompt_env 2) ''prompt-1'' (replace_with ''X'') =
           (let new_prompt =
                  \<lparr>prompt_id = new_prompt_id (prompt_env 2),
                   prompt_fsm_state = prompt_fsm_state first_prompt,
                   prompt_language = prompt_language first_prompt,
                   prompt_text = replacement_text (replace_with ''X''),
                   prompt_status = PS_DRAFT,
                   version = version first_prompt + 1,
                   created_at = new_created_at (prompt_env 2),
                   updated_at = new_updated_at (prompt_env 2),
                   created_by = ''admin'',
                   prompt_notes =
                     Some (case weak_notes (replace_with ''X'') of
                             None \<Rightarrow> ''Replacement for weak prompt '' @ ''prompt-1''
                           | Some n \<Rightarrow>
                               if n = [] then ''Replacement for weak prompt '' @ ''prompt-1''
                               else n)\<rparr>
            in (Inr new_prompt,
                store_1[i := first_prompt\<lparr>prompt_status := PS_WEAK, updated_at := 20\<rparr>]
                @ [new_prompt]))"
    using mp [OF conjunct2 [OF conjunct2 [OF mark_prompt_weak_contract
              [of "''prompt-1''" store_1 20 "prompt_env 2" "replace_with ''X''" first_prompt]]]
              conjI [OF f1 nw]]
    by blast
  from i have i0: "i = 0" by (simp add: s1)
  have e2: "prompt_env 2 = \<lparr>new_prompt_id = ''prompt-2'', new_created_at = 20, new_updated_at = 21\<rparr>"
    by code_simp
  have c: "mark_prompt_weak store_1 20 (prompt_env 2) ''prompt-1'' (replace_with ''X'') =
        (Inr \<lparr>prompt_id = ''prompt-2'', prompt_fsm_state = QUALIFICATION,
               prompt_language = ENGLISH, prompt_text = ''X'', prompt_status = PS_DRAFT,
               version = 2, created_at = 20, updated_at = 21, created_by = ''admin'',
               prompt_notes = Some ''Replacement for weak prompt prompt-1''\<rparr>,
         [first_prompt\<lparr>prompt_status := PS_WEAK, updated_at := 20\<rparr>,
          \<lparr>prompt_id = ''prompt-2'', prompt_fsm_state = QUALIFICATION,
               prompt_language = ENGLISH, prompt_text = ''X'', prompt_status = PS_DRAFT,
               version = 2, created_at = 20, updated_at = 21, created_by = ''admin'',
               prompt_notes = Some ''Replacement for weak prompt prompt-1''\<rparr>])"
    using r by (simp add: i0 s1 e2 Let_def first_prompt_def replace_with_def)
  show ?thesis
    using f0 a f1 w b nw c by (intro conjI)
qed

subsection \<open>Effects of the engine operations\<close>

lemma apply_update_data_call_id [simp]:
  "call_id (apply_update_data ut at ns ups fin now c) = call_id c"
  by (simp add: apply_update_data_def Let_def)

lemma apply_update_data_status [simp]:
  "call_status (apply_update_data ut at ns ups fin now c) =
     (if fin then CS_COMPLETED else call_status c)"
  by (simp add: apply_update_data_def Let_def)

lemma apply_update_data_end_time [simp]:
  "end_time (apply_update_data ut at ns ups fin now c) = (if fin then Some now else end_time c)"
  by (simp add: apply_update_data_def Let_def)

lemma apply_update_data_exit_reason [simp]:
  "exit_reason (apply_update_data ut at ns ups fin now c) =
     (if fin then Some ER_COMPLETED else exit_reason c)"
  by (simp add: apply_update_data_def Let_def)

lemma find_Some_list_ex: "find Q xs = Some x \<Longrightarrow> list_ex Q xs \<and> x \<in> set xs \<and> Q x"
  by (induction xs) (auto split: if_splits)

lemma apply_update_data_turns [simp]:
  "turns (apply_update_data ut at ns ups fin now c) = turns c @ [ut, at]"
  by (simp add: apply_update_data_def Let_def)

lemma apply_update_data_fsm_state [simp]:
  "call_fsm_state (apply_update_data ut at ns ups fin now c) = ns"
  by (simp add: apply_update_data_def Let_def)

lemma apply_update_data_language [simp]:
  "call_language (apply_update_data ut at ns ups fin now c) = call_language c"
  by (simp add: apply_update_data_def Let_def)

text \<open>What one operation does to the collection.\<close>

lemma webcall_start_effect:
  "\<exists>resp c. webcall_start db env request = (Inr resp, db @ [c])
     \<and> call_id c = new_call_id env \<and> call_status c = CS_ACTIVE
     \<and> end_time c = None \<and> exit_reason c = None"
proof -
  obtain t where "get_simulated_response GREETING [] (start_language request) = Inr (t, QUALIFICATION, False)"
    using greeting_empty by blast
  then show ?thesis by (simp add: webcall_start_def insert_one_def)
qed

lemma webcall_input_effect:
  assumes "webcall_input db env request = (res, db')"
  shows "(\<exists>e. res = Inl e \<and> db' = db)
       \<or> (\<exists>r c ut at ns ups now.
            res = Inr r
            \<and> find (\<lambda>c. call_id c = input_call_id request) db = Some c
            \<and> call_status c = CS_ACTIVE
            \<and> db' = update_one (\<lambda>c. call_id c = input_call_id request)
                      (apply_update_data ut at ns ups (is_final r) now) db)"
proof (cases "find (\<lambda>c. call_id c = input_call_id request) db")
  case None
  then show ?thesis using assms by (auto simp: webcall_input_def)
next
  case (Some c)
  show ?thesis
  proof (cases "call_status c = CS_ACTIVE")
    case False
    then show ?thesis using assms Some by (auto simp: webcall_input_def)
  next
    case True
    obtain t n fin where
      g: "get_simulated_response (call_fsm_state c) (user_input request) (call_language c) = Inr (t, n, fin)"
      using get_simulated_response_total by (metis prod_cases3)
    have "res = Inr \<lparr>answered_call_id = input_call_id request, aira_response = t,
                     answered_fsm_state = n,
                     answered_audio_url =
                       Some (''/api/audio/'' @ input_call_id request @ ''/''
                             @ str_nat (length (turns c) + 2 - 1)),
                     is_final = fin\<rparr>"
      and "db' = update_one (\<lambda>c. call_id c = input_call_id request)
                   (apply_update_data
                      \<lparr>turn_id = user_turn_id env, timestamp = user_turn_now env,
                        speaker = ''user'', turn_text = user_input request,
                        turn_audio_url = None, turn_fsm_state = call_fsm_state c\<rparr>
                      \<lparr>turn_id = aira_turn_id env, timestamp = aira_turn_now env,
                        speaker = ''aira'', turn_text = t, turn_audio_url = None,
                        turn_fsm_state = n\<rparr>
                      n (qualification_updates (user_input request)) fin (final_now env)) db"
      using assms Some True g by (simp_all add: webcall_input_def Let_def)
    then show ?thesis using Some True by force
  qed
qed

lemma webcall_end_effect:
  assumes "webcall_end db now cid = (res, db')"
  shows "(\<exists>e. res = Inl e \<and> db' = db)
       \<or> (res = Inr (''Call ended'', cid)
          \<and> list_ex (\<lambda>c. call_id c = cid \<and> call_status c = CS_ACTIVE) db
          \<and> db' = update_one (\<lambda>c. call_id c = cid \<and> call_status c = CS_ACTIVE)
                     (\<lambda>c. c\<lparr>call_status := CS_COMPLETED, end_time := Some now,
                             exit_reason := Some ER_USER_HANGUP\<rparr>) db)"
proof (cases "list_ex (\<lambda>c. call_id c = cid \<and> call_status c = CS_ACTIVE) db")
  case True
  then show ?thesis using assms by (simp add: webcall_end_def)
next
  case False
  then show ?thesis using assms by (auto simp: webcall_end_def update_one_no_match)
qed

subsection \<open>Turns appended by inputs\<close>


lemma webcall_input_answered:
  assumes f: "find (\<lambda>c. call_id c = cid) db = Some c"
    and w: "webcall_input db env \<lparr>input_call_id = cid, user_input = u\<rparr> = (Inr r, db')"
  shows "\<exists>c'. find (\<lambda>c. call_id c = cid) db' = Some c'
           \<and> get_simulated_response (call_fsm_state c) u (call_language c)
               = Inr (aira_response r, answered_fsm_state r, is_final r)
           \<and> turns c' = turns c @ appended_turns (call_fsm_state c) [((env, u), r)]
           \<and> call_fsm_state c' = answered_fsm_state r
           \<and> call_language c' = call_language c"
proof -
  have active: "call_status c = CS_ACTIVE"
    using f w by (auto simp: webcall_input_def split: if_splits)
  obtain t n fin where g: "get_simulated_response (call_fsm_state c) u (call_language c) = Inr (t, n, fin)"
    using get_simulated_response_total by (metis prod_cases3)
  let ?ut = "\<lparr>turn_id = user_turn_id env, timestamp = user_turn_now env, speaker = ''user'',
      turn_text = u, turn_audio_url = None, turn_fsm_state = call_fsm_state c\<rparr>"
  let ?at = "\<lparr>turn_id = aira_turn_id env, timestamp = aira_turn_now env, speaker = ''aira'',
        turn_text = t, turn_audio_url = None, turn_fsm_state = n\<rparr>"
  let ?upd = "apply_update_data ?ut ?at n (qualification_updates u) fin (final_now env)"
  have r: "aira_response r = t" "answered_fsm_state r = n" "is_final r = fin"
    and db': "db' = update_one (\<lambda>c. call_id c = cid) ?upd db"
    using f w active g by (auto simp: webcall_input_def Let_def)
  have "find (\<lambda>c. call_id c = cid) db' = Some (?upd c)"
    unfolding db' using f by (simp add: find_update_one)
  then show ?thesis
    using g r by simp
qed

text \<open>
  C6. When a sequence of inputs on one call id is answered without failure, the call's
  turns afterwards are its turns before followed by two turns per input, in the order of
  the inputs: a user turn with the utterance, tagged with the state before the input, then
  an agent turn with the answer, tagged with the state the resolver returned. The number
  of turns grows by twice the number of inputs and the earlier turns are an unchanged
  prefix.
\<close>

theorem submit_all_appends_two_turns:
  assumes "find (\<lambda>c. call_id c = cid) db = Some c"
    and "submit_all db cid inputs = Inr (rs, db')"
  shows "\<exists>c'. find (\<lambda>c. call_id c = cid) db' = Some c'
           \<and> length rs = length inputs
           \<and> resolved_chain (call_fsm_state c) (call_language c) (zip inputs rs)
           \<and> turns c' = turns c @ appended_turns (call_fsm_state c) (zip inputs rs)
           \<and> length (turns c') = length (turns c) + 2 * length inputs
           \<and> take (length (turns c)) (turns c') = turns c"
  using assms
proof (induction inputs arbitrary: db c rs)
  case Nil
  then show ?case by simp
next
  case (Cons a inputs)
  obtain env u where a: "a = (env, u)" by (cases a)
  from Cons.prems(2) obtain r db1 rs1 where
    w: "webcall_input db env \<lparr>input_call_id = cid, user_input = u\<rparr> = (Inr r, db1)"
    and rest: "submit_all db1 cid inputs = Inr (rs1, db')"
    and rs: "rs = r # rs1"
    unfolding a by (auto split: prod.splits sum.splits)
  from webcall_input_answered[OF Cons.prems(1) w] obtain c1 where
    c1: "find (\<lambda>c. call_id c = cid) db1 = Some c1"
    and g: "get_simulated_response (call_fsm_state c) u (call_language c)
               = Inr (aira_response r, answered_fsm_state r, is_final r)"
    and t1: "turns c1 = turns c @ appended_turns (call_fsm_state c) [((env, u), r)]"
    and s1: "call_fsm_state c1 = answered_fsm_state r"
    and l1: "call_language c1 = call_language c"
    by blast
  from Cons.IH[OF c1 rest] obtain c' where
    c': "find (\<lambda>c. call_id c = cid) db' = Some c'"
    and len: "length rs1 = length inputs"
    and ch: "resolved_chain (call_fsm_state c1) (call_language c1) (zip inputs rs1)"
    and tn: "turns c' = turns c1 @ appended_turns (call_fsm_state c1) (zip inputs rs1)"
    and ln: "length (turns c') = length (turns c1) + 2 * length inputs"
    by blast
  have "length rs = length (a # inputs)" using len rs by simp
  moreover have "resolved_chain (call_fsm_state c) (call_language c) (zip (a # inputs) rs)"
    using g ch s1 l1 unfolding a rs by simp
  moreover have tt: "turns c' = turns c @ appended_turns (call_fsm_state c) (zip (a # inputs) rs)"
    using tn t1 s1 unfolding a rs by simp
  moreover have "length (turns c') = length (turns c) + 2 * length (a # inputs)"
    using ln t1 by simp
  moreover have "take (length (turns c)) (turns c') = turns c"
    unfolding tt by simp
  ultimately show ?case using c' by blast
qed


theorem submit_all_appends_two_turns_witness:
  "find (\<lambda>c. call_id c = ''call-1'') session_0 = Some (session_0 ! 0)
   \<and> submit_all session_0 ''call-1'' two_inputs = Inr (two_answers, two_db)
   \<and> (\<exists>c'. find (\<lambda>c. call_id c = ''call-1'') two_db = Some c'
           \<and> length two_answers = length two_inputs
           \<and> resolved_chain (call_fsm_state (session_0 ! 0)) (call_language (session_0 ! 0))
               (zip two_inputs two_answers)
           \<and> turns c' = turns (session_0 ! 0)
               @ appended_turns (call_fsm_state (session_0 ! 0)) (zip two_inputs two_answers)
           \<and> length (turns c') = length (turns (session_0 ! 0)) + 2 * length two_inputs
           \<and> take (length (turns (session_0 ! 0))) (turns c') = turns (session_0 ! 0))
   \<and> map (\<lambda>t. (speaker t, turn_fsm_state t)) (turns (two_db ! 0)) =
       [(''aira'', GREETING), (''user'', GREETING), (''aira'', QUALIFICATION),
        (''user'', QUALIFICATION), (''aira'', DEMO_OFFER)]"
proof -
  have f: "find (\<lambda>c. call_id c = ''call-1'') session_0 = Some (session_0 ! 0)"
    by code_simp
  have s: "submit_all session_0 ''call-1'' two_inputs = Inr (two_answers, two_db)"
    by code_simp
  have e: "map (\<lambda>t. (speaker t, turn_fsm_state t)) (turns (two_db ! 0)) =
       [(''aira'', GREETING), (''user'', GREETING), (''aira'', QUALIFICATION),
        (''user'', QUALIFICATION), (''aira'', DEMO_OFFER)]"
    by code_simp
  show ?thesis
    using f s submit_all_appends_two_turns [OF f s] e by (intro conjI)
qed

subsection \<open>At most one active prompt per lineage\<close>

lemma active_in_append_draft:
  "prompt_status p \<noteq> PS_ACTIVE \<Longrightarrow> active_in s l (db @ [p]) = active_in s l db"
  by (simp add: active_in_def)

lemma active_in_archive_same:
  "active_in s l (archive_active s l now db) = []"
  by (induction db) (simp_all add: active_in_def archive_active_def update_many_def)

lemma active_in_archive_other:
  "(s, l) \<noteq> (s0, l0) \<Longrightarrow> active_in s l (archive_active s0 l0 now db) = active_in s l db"
  by (induction db) (auto simp: active_in_def archive_active_def update_many_def)

lemma length_active_in_archive:
  "length (active_in s l (archive_active s0 l0 now db)) \<le> length (active_in s l db)"
  by (cases "(s, l) = (s0, l0)") (auto simp: active_in_archive_same active_in_archive_other)

lemma find_archive_draft:
  assumes "find (\<lambda>q. prompt_id q = pid) db = Some p" and "prompt_status p = PS_DRAFT"
  shows "find (\<lambda>q. prompt_id q = pid) (archive_active s0 l0 now db) = Some p"
proof -
  let ?g = "\<lambda>x. if prompt_fsm_state x = s0 \<and> prompt_language x = l0 \<and> prompt_status x = PS_ACTIVE
                 then x\<lparr>prompt_status := PS_ARCHIVED, updated_at := now\<rparr> else x"
  have "find (\<lambda>q. prompt_id q = pid) (map ?g db) = map_option ?g (find (\<lambda>q. prompt_id q = pid) db)"
    by (rule find_map_same_pred) simp
  then show ?thesis using assms by (simp add: archive_active_def update_many_def)
qed

lemma activate_keeps_one_active:
  assumes f: "find (\<lambda>q. prompt_id q = pid) db = Some p" and d: "prompt_status p = PS_DRAFT"
    and inv: "\<And>s l. length (active_in s l db) \<le> 1"
  shows "length (active_in s l
           (activate pid now2 (archive_active (prompt_fsm_state p) (prompt_language p) now1 db))) \<le> 1"
proof -
  let ?db1 = "archive_active (prompt_fsm_state p) (prompt_language p) now1 db"
  have f1: "find (\<lambda>q. prompt_id q = pid) ?db1 = Some p"
    using f d by (rule find_archive_draft)
  show ?thesis
  proof (cases "(s, l) = (prompt_fsm_state p, prompt_language p)")
    case True
    then have "active_in s l ?db1 = []" by (simp add: active_in_archive_same)
    then have "length (filter (\<lambda>q. prompt_fsm_state q = s \<and> prompt_language q = l
                 \<and> prompt_status q = PS_ACTIVE) ?db1) = 0"
      by (simp add: active_in_def)
    then show ?thesis
      unfolding active_in_def activate_def
      using filter_update_one_le_Suc[of "\<lambda>q. prompt_fsm_state q = s \<and> prompt_language q = l
                 \<and> prompt_status q = PS_ACTIVE" "\<lambda>q. prompt_id q = pid"
                 "\<lambda>q. q\<lparr>prompt_status := PS_ACTIVE, updated_at := now2\<rparr>" ?db1]
      by simp
  next
    case False
    then have off: "\<not> (prompt_fsm_state p = s \<and> prompt_language p = l)" by auto
    have "length (active_in s l (activate pid now2 ?db1)) = length (active_in s l ?db1)"
      unfolding active_in_def activate_def
      using f1 off by (intro filter_update_one_first[where x = p]) auto
    also have "\<dots> \<le> length (active_in s l db)" by (rule length_active_in_archive)
    also have "\<dots> \<le> 1" by (rule inv)
    finally show ?thesis .
  qed
qed

lemma step_keeps_one_active:
  assumes inv: "\<And>s l. length (active_in s l db) \<le> 1"
  shows "length (active_in s l (snd (prompt_step db op))) \<le> 1"
proof (cases op)
  case (Create env request)
  then show ?thesis using inv[of s l]
    by (simp add: create_prompt_def Let_def insert_one_def active_in_append_draft)
next
  case (Update now pid request)
  show ?thesis
  proof (cases "find (\<lambda>p. prompt_id p = pid) db")
    case None
    then show ?thesis using inv[of s l] Update by (simp add: update_prompt_def)
  next
    case (Some p)
    let ?sf = "\<lambda>p. let p1 = p\<lparr>prompt_text := update_text request, updated_at := now\<rparr>
                        in (case update_notes request of
                              None \<Rightarrow> p1
                            | Some n \<Rightarrow> if n = [] then p1 else p1\<lparr>prompt_notes := Some n\<rparr>)"
    have "length (active_in s l (update_one (\<lambda>p. prompt_id p = pid) ?sf db)) \<le> length (active_in s l db)"
      unfolding active_in_def
      by (rule filter_update_one_le) (auto simp: Let_def split: option.splits if_splits)
    then have "length (active_in s l (update_one (\<lambda>p. prompt_id p = pid) ?sf db)) \<le> 1"
      using inv[of s l] by simp
    then show ?thesis using Some Update inv[of s l]
      by (simp add: update_prompt_def Let_def split: option.splits)
  qed
next
  case (MarkWeak now env pid request)
  have "length (active_in s l (update_one (\<lambda>p. prompt_id p = pid)
            (\<lambda>p. p\<lparr>prompt_status := PS_WEAK, updated_at := now\<rparr>) db)) \<le> length (active_in s l db)"
    unfolding active_in_def by (rule filter_update_one_le) simp
  then have "length (active_in s l (update_one (\<lambda>p. prompt_id p = pid)
            (\<lambda>p. p\<lparr>prompt_status := PS_WEAK, updated_at := now\<rparr>) db)) \<le> 1"
    using inv[of s l] by simp
  then show ?thesis using MarkWeak inv[of s l]
    by (simp add: mark_prompt_weak_def Let_def insert_one_def active_in_append_draft
        split: option.splits)
next
  case (Publish now1 now2 pid)
  show ?thesis
  proof (cases "find (\<lambda>p. prompt_id p = pid) db")
    case None
    then show ?thesis using inv[of s l] Publish by (simp add: publish_prompt_def)
  next
    case (Some p)
    show ?thesis
    proof (cases "prompt_status p = PS_DRAFT")
      case True
      have "length (active_in s l
           (activate pid now2 (archive_active (prompt_fsm_state p) (prompt_language p) now1 db))) \<le> 1"
        using Some True inv by (rule activate_keeps_one_active)
      then show ?thesis using Some True Publish
        by (simp add: publish_prompt_def Let_def split: option.splits)
    next
      case False
      then show ?thesis using Some inv[of s l] Publish by (simp add: publish_prompt_def)
    qed
  qed
qed

lemma run_keeps_one_active:
  "(\<And>s l. length (active_in s l db) \<le> 1) \<Longrightarrow> length (active_in s l (prompt_run db ops)) \<le> 1"
proof (induction ops arbitrary: db s l)
  case Nil
  then show ?case by simp
next
  case (Cons op ops)
  have "\<And>s l. length (active_in s l (snd (prompt_step db op))) \<le> 1"
    using Cons.prems by (rule step_keeps_one_active)
  then show ?case using Cons.IH by simp
qed


lemma publish_draft_result:
  assumes f: "find (\<lambda>q. prompt_id q = pid) db = Some p" and d: "prompt_status p = PS_DRAFT"
  shows "publish_prompt db now1 now2 pid =
           (Inr (p\<lparr>prompt_status := PS_ACTIVE, updated_at := now2\<rparr>),
            activate pid now2 (archive_active (prompt_fsm_state p) (prompt_language p) now1 db))"
    and "active_in (prompt_fsm_state p) (prompt_language p)
           (activate pid now2 (archive_active (prompt_fsm_state p) (prompt_language p) now1 db))
         = [p\<lparr>prompt_status := PS_ACTIVE, updated_at := now2\<rparr>]"
proof -
  let ?db1 = "archive_active (prompt_fsm_state p) (prompt_language p) now1 db"
  let ?f = "\<lambda>q. q\<lparr>prompt_status := PS_ACTIVE, updated_at := now2\<rparr>"
  have f1: "find (\<lambda>q. prompt_id q = pid) ?db1 = Some p"
    using f d by (rule find_archive_draft)
  have "find (\<lambda>q. prompt_id q = pid) (update_one (\<lambda>q. prompt_id q = pid) ?f ?db1)
          = map_option ?f (find (\<lambda>q. prompt_id q = pid) ?db1)"
    by (rule find_update_one) simp
  then have f2: "find (\<lambda>q. prompt_id q = pid) (activate pid now2 ?db1) = Some (?f p)"
    using f1 by (simp add: activate_def)
  show "publish_prompt db now1 now2 pid = (Inr (?f p), activate pid now2 ?db1)"
    using f d f2 by (simp add: publish_prompt_def Let_def)
  have "filter (\<lambda>q. prompt_fsm_state q = prompt_fsm_state p \<and> prompt_language q = prompt_language p
                  \<and> prompt_status q = PS_ACTIVE) ?db1 = []"
    using active_in_archive_same[of "prompt_fsm_state p" "prompt_language p" now1 db]
    by (simp add: active_in_def)
  then have "filter (\<lambda>q. prompt_fsm_state q = prompt_fsm_state p \<and> prompt_language q = prompt_language p
                  \<and> prompt_status q = PS_ACTIVE) (update_one (\<lambda>q. prompt_id q = pid) ?f ?db1) = [?f p]"
    using f1 by (rule filter_update_one_single) simp
  then show "active_in (prompt_fsm_state p) (prompt_language p) (activate pid now2 ?db1) = [?f p]"
    by (simp add: active_in_def activate_def)
qed

lemma only_publish_activates:
  assumes np: "\<not> is_publish op" and q: "q \<in> set (snd (prompt_step db op))"
    and a: "prompt_status q = PS_ACTIVE"
  shows "q \<in> set db"
proof (cases op)
  case (Create env request)
  then show ?thesis using q a by (auto simp: create_prompt_def Let_def insert_one_def)
next
  case (Update now pid request)
  show ?thesis
  proof (cases "find (\<lambda>p. prompt_id p = pid) db")
    case None
    then show ?thesis using q Update by (simp add: update_prompt_def)
  next
    case (Some p)
    show ?thesis
    proof (cases "prompt_status p = PS_ACTIVE")
      case True
      then show ?thesis using q Update Some by (simp add: update_prompt_def)
    next
      case False
      let ?sf = "\<lambda>p. let p1 = p\<lparr>prompt_text := update_text request, updated_at := now\<rparr>
                        in (case update_notes request of
                              None \<Rightarrow> p1
                            | Some n \<Rightarrow> if n = [] then p1 else p1\<lparr>prompt_notes := Some n\<rparr>)"
      have "q \<in> set (update_one (\<lambda>p. prompt_id p = pid) ?sf db)"
        using q Update Some False by (simp add: update_prompt_def Let_def split: option.splits)
      then have "q \<in> set db \<or> (\<exists>x. find (\<lambda>p. prompt_id p = pid) db = Some x \<and> q = ?sf x)"
        by (rule set_update_one)
      moreover have "prompt_status (?sf p) = prompt_status p"
        by (simp add: Let_def split: option.splits)
      ultimately show ?thesis using Some False a by auto
    qed
  qed
next
  case (MarkWeak now env pid request)
  show ?thesis
  proof (cases "snd (mark_prompt_weak db now env pid request) = db")
    case True
    then show ?thesis using q MarkWeak by simp
  next
    case False
    then obtain p where "q \<in> set (update_one (\<lambda>p. prompt_id p = pid)
                         (\<lambda>p. p\<lparr>prompt_status := PS_WEAK, updated_at := now\<rparr>) db)"
      using q a MarkWeak
      by (auto simp: mark_prompt_weak_def Let_def insert_one_def split: option.splits if_splits)
    then have "q \<in> set db \<or> (\<exists>x. find (\<lambda>p. prompt_id p = pid) db = Some x
                 \<and> q = x\<lparr>prompt_status := PS_WEAK, updated_at := now\<rparr>)"
      by (rule set_update_one)
    then show ?thesis using a by auto
  qed
next
  case (Publish now1 now2 pid)
  then show ?thesis using np by simp
qed

text \<open>
  C1. Starting from a store with at most one active prompt per (state, language) lineage
  (the empty store is one), after every sequence of create, update, mark-weak and publish
  operations every lineage has at most one active prompt. A publish of a draft first
  archives the lineage, which leaves no active prompt in it and at most one in any other
  lineage, and then activates the target, which is then the only active prompt of its
  lineage. An operation other than publish leaves no prompt active that was not already
  stored as active.
\<close>

theorem at_most_one_active_prompt:
  assumes "\<forall>s l. length (active_in s l db0) \<le> 1"
  shows "length (active_in s l (prompt_run db0 ops)) \<le> 1
    \<and> (find (\<lambda>q. prompt_id q = pid) (prompt_run db0 ops) = Some p \<and> prompt_status p = PS_DRAFT \<longrightarrow>
         (let db1 = archive_active (prompt_fsm_state p) (prompt_language p) now1 (prompt_run db0 ops);
              db2 = activate pid now2 db1
          in publish_prompt (prompt_run db0 ops) now1 now2 pid =
               (Inr (p\<lparr>prompt_status := PS_ACTIVE, updated_at := now2\<rparr>), db2)
             \<and> active_in (prompt_fsm_state p) (prompt_language p) db1 = []
             \<and> length (active_in s l db1) \<le> 1
             \<and> active_in (prompt_fsm_state p) (prompt_language p) db2 =
                 [p\<lparr>prompt_status := PS_ACTIVE, updated_at := now2\<rparr>]))
    \<and> (\<not> is_publish op \<and> q \<in> set (snd (prompt_step db op)) \<and> prompt_status q = PS_ACTIVE \<longrightarrow>
         q \<in> set db)"
proof (intro conjI impI)
  have inv: "\<And>s l. length (active_in s l (prompt_run db0 ops)) \<le> 1"
    using assms by (intro run_keeps_one_active) simp
  show "length (active_in s l (prompt_run db0 ops)) \<le> 1" by (rule inv)
  show "q \<in> set db"
    if "\<not> is_publish op \<and> q \<in> set (snd (prompt_step db op)) \<and> prompt_status q = PS_ACTIVE"
    using that only_publish_activates by blast
  show "let db1 = archive_active (prompt_fsm_state p) (prompt_language p) now1 (prompt_run db0 ops);
              db2 = activate pid now2 db1
          in publish_prompt (prompt_run db0 ops) now1 now2 pid =
               (Inr (p\<lparr>prompt_status := PS_ACTIVE, updated_at := now2\<rparr>), db2)
             \<and> active_in (prompt_fsm_state p) (prompt_language p) db1 = []
             \<and> length (active_in s l db1) \<le> 1
             \<and> active_in (prompt_fsm_state p) (prompt_language p) db2 =
                 [p\<lparr>prompt_status := PS_ACTIVE, updated_at := now2\<rparr>]"
    if h: "find (\<lambda>q. prompt_id q = pid) (prompt_run db0 ops) = Some p \<and> prompt_status p = PS_DRAFT"
  proof -
    from h have f: "find (\<lambda>q. prompt_id q = pid) (prompt_run db0 ops) = Some p"
      and d: "prompt_status p = PS_DRAFT" by simp_all
    have "length (active_in s l
            (archive_active (prompt_fsm_state p) (prompt_language p) now1 (prompt_run db0 ops)))
          \<le> length (active_in s l (prompt_run db0 ops))"
      by (rule length_active_in_archive)
    then have mid: "length (active_in s l
            (archive_active (prompt_fsm_state p) (prompt_language p) now1 (prompt_run db0 ops))) \<le> 1"
      using inv[of s l] by simp
    show ?thesis
      unfolding Let_def
      using publish_draft_result[OF f d, where ?now1.0 = now1 and ?now2.0 = now2] mid
        active_in_archive_same[of "prompt_fsm_state p" "prompt_language p" now1 "prompt_run db0 ops"]
      by (intro conjI)
  qed
qed


theorem at_most_one_active_prompt_witness:
  "(\<forall>s l. length (active_in s l []) \<le> 1)
   \<and> length (active_in DEMO_OFFER SPANISH store_2) \<le> 1
   \<and> find (\<lambda>q. prompt_id q = ''prompt-3'') store_2 = Some (store_2 ! 1)
   \<and> prompt_status (store_2 ! 1) = PS_DRAFT
   \<and> (let db1 = archive_active (prompt_fsm_state (store_2 ! 1)) (prompt_language (store_2 ! 1))
                  40 store_2;
           db2 = activate ''prompt-3'' 41 db1
       in publish_prompt store_2 40 41 ''prompt-3'' =
            (Inr ((store_2 ! 1)\<lparr>prompt_status := PS_ACTIVE, updated_at := 41\<rparr>), db2)
          \<and> active_in (prompt_fsm_state (store_2 ! 1)) (prompt_language (store_2 ! 1)) db1 = []
          \<and> length (active_in DEMO_OFFER SPANISH db1) \<le> 1
          \<and> active_in (prompt_fsm_state (store_2 ! 1)) (prompt_language (store_2 ! 1)) db2 =
              [(store_2 ! 1)\<lparr>prompt_status := PS_ACTIVE, updated_at := 41\<rparr>])
   \<and> map prompt_status store_2 = [PS_ACTIVE, PS_DRAFT]
   \<and> map prompt_status (snd (publish_prompt store_2 40 41 ''prompt-3'')) = [PS_ARCHIVED, PS_ACTIVE]
   \<and> \<not> is_publish (Create (prompt_env 4) (demo_offer_es ''tres''))
   \<and> store_2 ! 0 \<in> set (snd (prompt_step store_2 (Create (prompt_env 4) (demo_offer_es ''tres''))))
   \<and> prompt_status (store_2 ! 0) = PS_ACTIVE
   \<and> store_2 ! 0 \<in> set store_2"
proof -
  have h: "\<forall>s l. length (active_in s l []) \<le> 1"
    by (simp add: active_in_def)
  have f: "find (\<lambda>q. prompt_id q = ''prompt-3'') store_2 = Some (store_2 ! 1)"
    by code_simp
  have d: "prompt_status (store_2 ! 1) = PS_DRAFT"
    by code_simp
  have np: "\<not> is_publish (Create (prompt_env 4) (demo_offer_es ''tres''))"
    by simp
  have m: "store_2 ! 0 \<in> set (snd (prompt_step store_2 (Create (prompt_env 4) (demo_offer_es ''tres''))))"
    by (simp add: create_prompt_def Let_def insert_one_def store_2_def publish_prompt_def
        archive_active_def activate_def update_many_def)
  have a: "prompt_status (store_2 ! 0) = PS_ACTIVE"
    by code_simp
  have e1: "map prompt_status store_2 = [PS_ACTIVE, PS_DRAFT]"
    by code_simp
  have e2: "map prompt_status (snd (publish_prompt store_2 40 41 ''prompt-3'')) = [PS_ARCHIVED, PS_ACTIVE]"
    by code_simp
  note T = at_most_one_active_prompt [OF h, where s = DEMO_OFFER and l = SPANISH
      and pid = "''prompt-3''" and p = "store_2 ! 1" and ?now1.0 = 40 and ?now2.0 = 41
      and op = "Create (prompt_env 4) (demo_offer_es ''tres'')" and q = "store_2 ! 0"
      and db = store_2
      and ops = "[Create (prompt_env 1) (demo_offer_es ''uno''), Publish 20 21 ''prompt-1'',
                  Create (prompt_env 3) (demo_offer_es ''dos'')]", folded store_2_def]
  have t1: "length (active_in DEMO_OFFER SPANISH store_2) \<le> 1"
    by (rule conjunct1 [OF T])
  have t2: "let db1 = archive_active (prompt_fsm_state (store_2 ! 1)) (prompt_language (store_2 ! 1))
                  40 store_2;
           db2 = activate ''prompt-3'' 41 db1
       in publish_prompt store_2 40 41 ''prompt-3'' =
            (Inr ((store_2 ! 1)\<lparr>prompt_status := PS_ACTIVE, updated_at := 41\<rparr>), db2)
          \<and> active_in (prompt_fsm_state (store_2 ! 1)) (prompt_language (store_2 ! 1)) db1 = []
          \<and> length (active_in DEMO_OFFER SPANISH db1) \<le> 1
          \<and> active_in (prompt_fsm_state (store_2 ! 1)) (prompt_language (store_2 ! 1)) db2 =
              [(store_2 ! 1)\<lparr>prompt_status := PS_ACTIVE, updated_at := 41\<rparr>]"
    by (rule mp [OF conjunct1 [OF conjunct2 [OF T]] conjI [OF f d]])
  have t3: "store_2 ! 0 \<in> set store_2"
    by (rule mp [OF conjunct2 [OF conjunct2 [OF T]] conjI [OF np conjI [OF m a]]])
  show ?thesis
    using h t1 f d t2 e1 e2 np m a t3 by (intro conjI)
qed

subsection \<open>End time, exit reason and completion\<close>

text \<open>Every call that the engine stores is well formed.\<close>

lemma call_wf_update_one:
  assumes "list_all call_wf db" and "\<And>x. x \<in> set db \<Longrightarrow> R x \<Longrightarrow> call_wf x \<Longrightarrow> call_wf (f x)"
  shows "list_all call_wf (update_one R f db)"
  using assms by (induction db) auto

lemma engine_step_call_wf:
  assumes "list_all call_wf db" and "engine_step db op = (r, db')"
  shows "list_all call_wf db'"
proof (cases op)
  case (Start env request)
  obtain resp c where "webcall_start db env request = (Inr resp, db @ [c])"
    "call_status c = CS_ACTIVE" "end_time c = None" "exit_reason c = None"
    using webcall_start_effect by blast
  then show ?thesis using assms Start by (auto simp: call_wf_def)
next
  case (Input env request)
  then obtain res where w: "webcall_input db env request = (res, db')"
    using assms(2) by (auto split: prod.splits)
  from webcall_input_effect[OF w] show ?thesis
  proof (elim disjE exE conjE)
    fix e assume "db' = db"
    then show ?thesis using assms(1) by simp
  next
    fix r c ut at ns ups now
    assume "db' = update_one (\<lambda>c. call_id c = input_call_id request)
                      (apply_update_data ut at ns ups (is_final r) now) db"
    moreover have "list_all call_wf (update_one (\<lambda>c. call_id c = input_call_id request)
                      (apply_update_data ut at ns ups (is_final r) now) db)"
      using assms(1) by (rule call_wf_update_one) (auto simp: call_wf_def split: if_splits)
    ultimately show ?thesis by simp
  qed
next
  case (End now cid)
  then obtain res where w: "webcall_end db now cid = (res, db')"
    using assms(2) by (auto split: prod.splits)
  from webcall_end_effect[OF w] show ?thesis
  proof (elim disjE exE conjE)
    fix e assume "db' = db"
    then show ?thesis using assms(1) by simp
  next
    assume "db' = update_one (\<lambda>c. call_id c = cid \<and> call_status c = CS_ACTIVE)
                     (\<lambda>c. c\<lparr>call_status := CS_COMPLETED, end_time := Some now,
                             exit_reason := Some ER_USER_HANGUP\<rparr>) db"
    moreover have "list_all call_wf (update_one (\<lambda>c. call_id c = cid \<and> call_status c = CS_ACTIVE)
                     (\<lambda>c. c\<lparr>call_status := CS_COMPLETED, end_time := Some now,
                             exit_reason := Some ER_USER_HANGUP\<rparr>) db)"
      using assms(1) by (rule call_wf_update_one) (simp add: call_wf_def)
    ultimately show ?thesis by simp
  qed
qed

lemma engine_run_call_wf:
  "list_all call_wf db \<Longrightarrow> engine_run db ops = (tr, db') \<Longrightarrow> list_all call_wf db'"
proof (induction ops arbitrary: db tr)
  case Nil
  then show ?case by simp
next
  case (Cons op ops)
  obtain r db1 where s: "engine_step db op = (r, db1)" by (cases "engine_step db op")
  obtain tr1 db2 where t: "engine_run db1 ops = (tr1, db2)" by (cases "engine_run db1 ops")
  have "db' = db2" using Cons.prems(2) s t by simp
  moreover have "list_all call_wf db1" using Cons.prems(1) s by (rule engine_step_call_wf)
  ultimately show ?case using Cons.IH t by blast
qed

text \<open>With distinct call ids, the fields of every stored call agree with the trace.\<close>

lemma started_ids_append: "started_ids (ops @ ops') = started_ids ops @ started_ids ops'"
  by (induction ops rule: started_ids.induct) simp_all

lemma engine_run_snoc:
  "engine_run db (ops @ [op]) =
     (case engine_run db ops of
        (tr, db1) \<Rightarrow> (case engine_step db1 op of (r, db2) \<Rightarrow> (tr @ [(op, r)], db2)))"
  by (induction ops arbitrary: db) (simp_all split: prod.splits)

lemma list_ex_completes:
  "list_ex (completes cid) tr
     = (list_ex (final_input_on cid) tr \<or> list_ex (end_on cid) tr)"
  by (induction tr) (auto simp: completes_def)

lemma call_trace_ok_snoc_other:
  "\<not> completes (call_id c) ev \<Longrightarrow> call_trace_ok (tr @ [ev]) c = call_trace_ok tr c"
  by (simp add: call_trace_ok_def completes_def)

lemma call_trace_ok_active:
  "call_trace_ok tr c \<Longrightarrow> call_status c = CS_ACTIVE \<Longrightarrow>
   \<not> list_ex (completes (call_id c)) tr \<and> call_trace_ok [] c"
  by (auto simp: call_trace_ok_def list_ex_completes split: if_splits)

lemma call_trace_ok_fresh:
  "\<not> list_ex (completes (call_id c)) tr \<Longrightarrow> call_trace_ok (tr @ [ev]) c = call_trace_ok [ev] c"
  by (simp add: call_trace_ok_def list_ex_completes)

lemma distinct_key_eq:
  "distinct (map k xs) \<Longrightarrow> x \<in> set xs \<Longrightarrow> y \<in> set xs \<Longrightarrow> k x = k y \<Longrightarrow> x = y"
  using inj_onD[of k "set xs" x y] by (simp add: distinct_map)

lemma trace_ok_update_at:
  assumes d: "distinct (map call_id db)"
    and ok: "list_all (call_trace_ok tr) db"
    and c: "c \<in> set db" "call_id c = cid" "call_status c = CS_ACTIVE"
    and fid: "call_id (f c) = cid"
    and others: "\<And>cid'. cid' \<noteq> cid \<Longrightarrow> \<not> completes cid' ev"
    and new: "call_trace_ok [] c \<Longrightarrow> call_trace_ok [ev] (f c)"
  shows "list_all (call_trace_ok (tr @ [ev])) (map (\<lambda>x. if call_id x = cid then f x else x) db)"
proof -
  have okc: "call_trace_ok tr c" using ok c(1) by (simp add: list_all_iff)
  have fresh: "\<not> list_ex (completes cid) tr" and c0: "call_trace_ok [] c"
    using call_trace_ok_active[OF okc c(3)] c(2) by simp_all
  have fc: "call_trace_ok (tr @ [ev]) (f c)"
    using fresh new[OF c0] fid by (simp add: call_trace_ok_fresh)
  have "call_trace_ok (tr @ [ev]) (if call_id x = cid then f x else x)" if x: "x \<in> set db" for x
  proof (cases "call_id x = cid")
    case True
    then have "x = c" using d x c(1) c(2) by (intro distinct_key_eq[of call_id db]) simp_all
    then show ?thesis using True fc by simp
  next
    case False
    then have "\<not> completes (call_id x) ev" by (rule others)
    moreover have "call_trace_ok tr x" using ok x by (simp add: list_all_iff)
    ultimately show ?thesis using False by (simp add: call_trace_ok_snoc_other)
  qed
  then show ?thesis unfolding list_all_iff set_map by blast
qed

lemma map_call_id_update:
  "(\<And>x. call_id (f x) = call_id x) \<Longrightarrow>
   map call_id (map (\<lambda>x. if call_id x = cid then f x else x) db) = map call_id db"
  by (induction db) simp_all

lemma engine_step_inv:
  assumes inv: "engine_inv ops tr db"
    and d: "distinct (started_ids (ops @ [op]))"
    and s: "engine_step db op = (r, db')"
  shows "engine_inv (ops @ [op]) (tr @ [(op, r)]) db'"
proof -
  have ids: "map call_id db = started_ids ops"
    and ok: "list_all (call_trace_ok tr) db"
    and known: "\<And>cid. list_ex (completes cid) tr \<Longrightarrow> cid \<in> set (started_ids ops)"
    using inv by (simp_all add: engine_inv_def)
  have dist: "distinct (map call_id db)"
    using d ids by (simp add: started_ids_append)
  text \<open>An operation that changes nothing and completes nothing.\<close>
  have unchanged: "engine_inv (ops @ [op]) (tr @ [(op, r)]) db"
    if none: "\<And>cid. \<not> completes cid (op, r)" and st: "started_ids [op] = []"
  proof -
    have "list_all (call_trace_ok (tr @ [(op, r)])) db"
      using ok none by (simp add: list_all_iff call_trace_ok_snoc_other)
    moreover have "\<forall>cid. list_ex (completes cid) (tr @ [(op, r)]) \<longrightarrow> cid \<in> set (started_ids ops)"
      using known none by simp
    ultimately show ?thesis using ids st by (simp add: engine_inv_def started_ids_append)
  qed
  text \<open>An operation that rewrites the one active call with the id.\<close>
  have rewritten: "engine_inv (ops @ [op]) (tr @ [(op, r)])
                     (map (\<lambda>x. if call_id x = cid then f x else x) db)"
    if c: "c \<in> set db" "call_id c = cid" "call_status c = CS_ACTIVE"
      and fid: "\<And>x. call_id (f x) = call_id x"
      and others: "\<And>cid'. cid' \<noteq> cid \<Longrightarrow> \<not> completes cid' (op, r)"
      and new: "call_trace_ok [] c \<Longrightarrow> call_trace_ok [(op, r)] (f c)"
      and st: "started_ids [op] = []"
    for c cid f
  proof -
    have "call_id (f c) = cid" using fid c(2) by simp
    then have a: "list_all (call_trace_ok (tr @ [(op, r)]))
                 (map (\<lambda>x. if call_id x = cid then f x else x) db)"
      using dist ok c others new by (intro trace_ok_update_at) simp_all
    have cidin: "cid \<in> set (started_ids ops)"
      using c(1) c(2) ids by (metis imageI set_map)
    have b: "\<forall>cid'. list_ex (completes cid') (tr @ [(op, r)]) \<longrightarrow> cid' \<in> set (started_ids ops)"
    proof (intro allI impI)
      fix cid' assume "list_ex (completes cid') (tr @ [(op, r)])"
      then have "list_ex (completes cid') tr \<or> completes cid' (op, r)" by simp
      then show "cid' \<in> set (started_ids ops)"
      proof
        assume "list_ex (completes cid') tr"
        then show ?thesis by (rule known)
      next
        assume "completes cid' (op, r)"
        then have "cid' = cid" using others by blast
        then show ?thesis using cidin by simp
      qed
    qed
    have "map call_id (map (\<lambda>x. if call_id x = cid then f x else x) db) = started_ids ops"
      using map_call_id_update[of f cid db] fid ids by (simp del: map_map)
    then show ?thesis using a b st by (simp add: engine_inv_def started_ids_append)
  qed
  show ?thesis
  proof (cases op)
    case (Start env request)
    obtain resp c where w: "webcall_start db env request = (Inr resp, db @ [c])"
      and c: "call_id c = new_call_id env" "call_status c = CS_ACTIVE"
        "end_time c = None" "exit_reason c = None"
      using webcall_start_effect by blast
    have r: "r = Started (Inr resp)" and db': "db' = db @ [c]"
      using s Start w by simp_all
    have none: "\<And>cid. \<not> completes cid (op, r)"
      by (simp add: completes_def Start r)
    have "new_call_id env \<notin> set (started_ids ops)"
      using d Start by (simp add: started_ids_append)
    then have "\<not> list_ex (completes (call_id c)) tr"
      using known c(1) by auto
    then have "call_trace_ok (tr @ [(op, r)]) c = call_trace_ok [(op, r)] c"
      by (rule call_trace_ok_fresh)
    moreover have "call_trace_ok [(op, r)] c"
      using c(2) c(3) c(4) none by (simp add: call_trace_ok_def completes_def)
    ultimately have "call_trace_ok (tr @ [(op, r)]) c" by simp
    moreover have "list_all (call_trace_ok (tr @ [(op, r)])) db"
      using ok none by (simp add: list_all_iff call_trace_ok_snoc_other)
    moreover have "\<forall>cid. list_ex (completes cid) (tr @ [(op, r)]) \<longrightarrow>
                     cid \<in> set (started_ids (ops @ [op]))"
      using known none by (simp add: started_ids_append)
    ultimately show ?thesis
      using ids c(1) Start db' by (simp add: engine_inv_def started_ids_append)
  next
    case (Input env request)
    obtain res where w: "webcall_input db env request = (res, db')" and r: "r = Answered res"
      using s Input by (auto split: prod.splits)
    have st: "started_ids [op] = []" using Input by simp
    from webcall_input_effect[OF w] show ?thesis
    proof (elim disjE exE conjE)
      fix e assume e: "res = Inl e" and same: "db' = db"
      have "\<And>cid. \<not> completes cid (op, r)"
        by (simp add: completes_def Input r e)
      then show ?thesis using unchanged st same by simp
    next
      fix ra c ut at ns ups now
      assume res: "res = Inr ra"
        and f: "find (\<lambda>c. call_id c = input_call_id request) db = Some c"
        and act: "call_status c = CS_ACTIVE"
        and upd: "db' = update_one (\<lambda>c. call_id c = input_call_id request)
                      (apply_update_data ut at ns ups (is_final ra) now) db"
      have cin: "c \<in> set db" "call_id c = input_call_id request"
        and ex: "list_ex (\<lambda>c. call_id c = input_call_id request) db"
        using find_Some_list_ex[OF f] by simp_all
      have db': "db' = map (\<lambda>x. if call_id x = input_call_id request
                                then apply_update_data ut at ns ups (is_final ra) now x else x) db"
        unfolding upd using dist ex by (rule update_one_by_key) simp
      show ?thesis
        unfolding db'
      proof (rule rewritten[OF cin act _ _ _ st])
        show "call_id (apply_update_data ut at ns ups (is_final ra) now x) = call_id x" for x
          by simp
        show "\<not> completes cid' (op, r)" if "cid' \<noteq> input_call_id request" for cid'
          using that by (auto simp: completes_def Input r res)
        show "call_trace_ok [(op, r)] (apply_update_data ut at ns ups (is_final ra) now c)"
          if "call_trace_ok [] c"
          using that cin(2) by (simp add: call_trace_ok_def Input r res)
      qed
    qed
  next
    case (End now cid)
    obtain res where w: "webcall_end db now cid = (res, db')" and r: "r = Ended res"
      using s End by (auto split: prod.splits)
    have st: "started_ids [op] = []" using End by simp
    from webcall_end_effect[OF w] show ?thesis
    proof (elim disjE exE conjE)
      fix e assume e: "res = Inl e" and same: "db' = db"
      have "\<And>cid. \<not> completes cid (op, r)"
        by (simp add: completes_def End r e)
      then show ?thesis using unchanged st same by simp
    next
      let ?P = "\<lambda>c. call_id c = cid \<and> call_status c = CS_ACTIVE"
      let ?f = "\<lambda>c. c\<lparr>call_status := CS_COMPLETED, end_time := Some now,
                             exit_reason := Some ER_USER_HANGUP\<rparr>"
      assume res: "res = Inr (''Call ended'', cid)"
        and ex: "list_ex ?P db"
        and upd: "db' = update_one ?P ?f db"
      obtain c where cin: "c \<in> set db" "call_id c = cid" and act: "call_status c = CS_ACTIVE"
        using ex unfolding list_ex_iff by blast
      have db': "db' = map (\<lambda>x. if call_id x = cid then ?f x else x) db"
        unfolding upd using dist ex by (rule update_one_by_key) simp
      show ?thesis
        unfolding db'
      proof (rule rewritten[OF cin act _ _ _ st])
        show "call_id (?f x) = call_id x" for x
          by simp
        show "\<not> completes cid' (op, r)" if "cid' \<noteq> cid" for cid'
          using that by (auto simp: completes_def End r res)
        show "call_trace_ok [(op, r)] (?f c)" if "call_trace_ok [] c"
          using cin(2) by (simp add: call_trace_ok_def End r res)
      qed
    qed
  qed
qed

lemma engine_run_inv:
  "distinct (started_ids ops) \<Longrightarrow> engine_run [] ops = (tr, db) \<Longrightarrow> engine_inv ops tr db"
proof (induction ops arbitrary: tr db rule: rev_induct)
  case Nil
  then show ?case by (auto simp: engine_inv_def)
next
  case (snoc op ops)
  obtain tr1 db1 where r1: "engine_run [] ops = (tr1, db1)" by (cases "engine_run [] ops")
  obtain r db2 where s: "engine_step db1 op = (r, db2)" by (cases "engine_step db1 op")
  have eq: "tr = tr1 @ [(op, r)]" "db = db2"
    using snoc.prems(2) r1 s by (simp_all add: engine_run_snoc)
  have "distinct (started_ids ops)"
    using snoc.prems(1) by (simp add: started_ids_append)
  then have "engine_inv ops tr1 db1" using r1 by (rule snoc.IH)
  then show ?case unfolding eq using snoc.prems(1) s by (rule engine_step_inv)
qed

text \<open>
  C7. After every sequence of start, input and end operations on the empty collection,
  every stored call has an end time exactly when its status is not active, and an exit
  reason exactly when its status is not active. When the ids drawn by the start
  operations are distinct, a call is completed with end time and exit reason exactly when
  the trace has an input on its id that was answered with \<^verbatim>\<open>is_final\<close> or an acknowledged
  end on its id; its exit reason is completed exactly in the first case and user-hangup
  exactly in the second.
\<close>

theorem call_completion_iff:
  "(engine_run [] ops = (tr, db) \<and> c \<in> set db \<longrightarrow>
      (end_time c \<noteq> None \<longleftrightarrow> call_status c \<noteq> CS_ACTIVE)
      \<and> (exit_reason c \<noteq> None \<longleftrightarrow> call_status c \<noteq> CS_ACTIVE))
   \<and> (distinct (started_ids ops) \<and> engine_run [] ops = (tr, db) \<and> c \<in> set db \<longrightarrow>
      ((call_status c = CS_COMPLETED \<and> end_time c \<noteq> None \<and> exit_reason c \<noteq> None)
         \<longleftrightarrow> (list_ex (final_input_on (call_id c)) tr \<or> list_ex (end_on (call_id c)) tr))
      \<and> (list_ex (final_input_on (call_id c)) tr \<longleftrightarrow> exit_reason c = Some ER_COMPLETED)
      \<and> (list_ex (end_on (call_id c)) tr \<longleftrightarrow> exit_reason c = Some ER_USER_HANGUP))"
proof (intro conjI impI)
  assume a: "engine_run [] ops = (tr, db) \<and> c \<in> set db"
  have "list_all call_wf []" by simp
  then have "list_all call_wf db" using a by (blast intro: engine_run_call_wf)
  then have wf: "call_wf c" using a by (simp add: list_all_iff)
  show "end_time c \<noteq> None \<longleftrightarrow> call_status c \<noteq> CS_ACTIVE"
    using wf by (auto simp: call_wf_def split: if_splits)
  show "exit_reason c \<noteq> None \<longleftrightarrow> call_status c \<noteq> CS_ACTIVE"
    using wf by (auto simp: call_wf_def split: if_splits)
next
  assume a: "distinct (started_ids ops) \<and> engine_run [] ops = (tr, db) \<and> c \<in> set db"
  then have "engine_inv ops tr db" by (blast intro: engine_run_inv)
  then have ok: "call_trace_ok tr c" using a by (simp add: engine_inv_def list_all_iff)
  show "(call_status c = CS_COMPLETED \<and> end_time c \<noteq> None \<and> exit_reason c \<noteq> None)
         \<longleftrightarrow> (list_ex (final_input_on (call_id c)) tr \<or> list_ex (end_on (call_id c)) tr)"
    using ok by (auto simp: call_trace_ok_def split: if_splits)
  show "list_ex (final_input_on (call_id c)) tr \<longleftrightarrow> exit_reason c = Some ER_COMPLETED"
    using ok by (auto simp: call_trace_ok_def split: if_splits)
  show "list_ex (end_on (call_id c)) tr \<longleftrightarrow> exit_reason c = Some ER_USER_HANGUP"
    using ok by (auto simp: call_trace_ok_def split: if_splits)
qed

theorem call_completion_iff_witness:
  "distinct (started_ids two_sessions)
   \<and> engine_run [] two_sessions = (two_trace, two_calls)
   \<and> two_calls ! 0 \<in> set two_calls
   \<and> two_calls ! 1 \<in> set two_calls
   \<and> (end_time (two_calls ! 0) \<noteq> None \<longleftrightarrow> call_status (two_calls ! 0) \<noteq> CS_ACTIVE)
   \<and> (exit_reason (two_calls ! 0) \<noteq> None \<longleftrightarrow> call_status (two_calls ! 0) \<noteq> CS_ACTIVE)
   \<and> ((call_status (two_calls ! 0) = CS_COMPLETED \<and> end_time (two_calls ! 0) \<noteq> None
         \<and> exit_reason (two_calls ! 0) \<noteq> None)
        \<longleftrightarrow> (list_ex (final_input_on (call_id (two_calls ! 0))) two_trace
             \<or> list_ex (end_on (call_id (two_calls ! 0))) two_trace))
   \<and> (list_ex (final_input_on (call_id (two_calls ! 0))) two_trace
        \<longleftrightarrow> exit_reason (two_calls ! 0) = Some ER_COMPLETED)
   \<and> (list_ex (end_on (call_id (two_calls ! 1))) two_trace
        \<longleftrightarrow> exit_reason (two_calls ! 1) = Some ER_USER_HANGUP)
   \<and> map (\<lambda>c. (call_id c, call_status c, end_time c, exit_reason c)) two_calls =
       [(''call-1'', CS_COMPLETED, Some 12, Some ER_COMPLETED),
        (''call-2'', CS_COMPLETED, Some 50, Some ER_USER_HANGUP)]
   \<and> list_ex (final_input_on ''call-1'') two_trace
   \<and> list_ex (end_on ''call-2'') two_trace"
proof -
  have d: "distinct (started_ids two_sessions)"
    by code_simp
  have r: "engine_run [] two_sessions = (two_trace, two_calls)"
    by (simp add: two_trace_def two_calls_def)
  have m0: "two_calls ! 0 \<in> set two_calls"
    by code_simp
  have m1: "two_calls ! 1 \<in> set two_calls"
    by code_simp
  have e: "map (\<lambda>c. (call_id c, call_status c, end_time c, exit_reason c)) two_calls =
       [(''call-1'', CS_COMPLETED, Some 12, Some ER_COMPLETED),
        (''call-2'', CS_COMPLETED, Some 50, Some ER_USER_HANGUP)]"
    by code_simp
  have x1: "list_ex (final_input_on ''call-1'') two_trace"
    by code_simp
  have x2: "list_ex (end_on ''call-2'') two_trace"
    by code_simp
  note A = mp [OF conjunct1 [OF call_completion_iff] conjI [OF r m0]]
  note B = mp [OF conjunct2 [OF call_completion_iff] conjI [OF d conjI [OF r m0]]]
  note C = mp [OF conjunct2 [OF call_completion_iff] conjI [OF d conjI [OF r m1]]]
  show ?thesis
    using d r m0 m1 conjunct1 [OF A] conjunct2 [OF A] conjunct1 [OF B]
      conjunct1 [OF conjunct2 [OF B]] conjunct2 [OF conjunct2 [OF C]] e x1 x2
    by (intro conjI)
qed

end
